theory Spec2Isabelle
  imports Main
begin

section \<open>The SQLocal client (src/client.ts)\<close>

text \<open>
  The client runs in the foreground context and talks to the SQLite worker by messages.
  Every method of the class is an \<^verbatim>\<open>async\<close> function. The embedding is a state
  transformer over the record \<open>SQLocal\<close> of the instance's fields: an awaited call returns
  an \<open>outcome\<close> (the promise resolved, rejected, or never settled) and the updated
  instance. What the client does to the outside world (posting to the worker, asking for
  a lock, settling a pending promise, broadcasting) is appended to the field \<open>trace\<close>, in
  program order.

  Covered: the constructor, \<open>processMessageEvent\<close>, \<open>createQuery\<close>, \<open>exec\<close>,
  \<open>execBatch\<close>, \<open>beginTransaction\<close> with its \<open>commit\<close> and \<open>rollback\<close>,
  \<open>transaction\<close>, \<open>createCallbackFunction\<close>, \<open>createScalarFunction\<close>,
  \<open>getDatabaseInfo\<close>, \<open>overwriteDatabaseFile\<close>, \<open>deleteDatabaseFile\<close> and
  \<open>destroy\<close>. Left out: \<open>sql\<close> and \<open>batch\<close>, which wrap \<open>exec\<close> and
  \<open>execBatch\<close> in the statement and row helpers of lib/, and \<open>getDatabaseFile\<close>,
  which reads the file system.
\<close>

subsection \<open>Values and messages\<close>

text \<open>\<^verbatim>\<open>unknown\<close> values: statement parameters, callback arguments, error payloads.\<close>

datatype jsvalue = JsNull | JsNumber int | JsString string

type_synonym QueryKey = string

type_synonym Sqlite3Method = string

record Statement =
  sql :: string
  params :: "jsvalue list"

record RawResultData =
  rows :: "jsvalue list list"
  columns :: "string list"

type_synonym DatabaseInfo = "(string \<times> jsvalue) list"

datatype TransactionAction = Begin | Commit | Rollback

datatype FunctionType = CallbackFunction | ScalarFunction

text \<open>What \<open>overwriteDatabaseFile\<close> accepts, and what it sends to the worker.\<close>

datatype DatabaseFile =
  FileOrBlob "nat list"
| ArrayBuffer "nat list"
| Uint8Array "nat list"
| ReadableStream "nat list"

text \<open>The requests \<open>createQuery\<close> takes, still without their \<open>queryKey\<close>.\<close>

datatype Message =
  QueryMessage "QueryKey option" string "jsvalue list" Sqlite3Method
| BatchMessage "Statement list"
| TransactionMessage QueryKey TransactionAction
| FunctionMessage string FunctionType
| ImportMessage DatabaseFile
| GetInfoMessage
| DeleteMessage
| DestroyMessage

text \<open>
  The worker's messages. The switch of \<open>processMessageEvent\<close> has the six kinds; the key
  of a terminal message may be missing (\<^verbatim>\<open>null\<close>), and so may a callback's arguments.
\<close>

datatype OutputMessage =
  SuccessMessage "QueryKey option"
| DataMessage "QueryKey option" "RawResultData list"
| ErrorMessage "QueryKey option" jsvalue
| InfoMessage "QueryKey option" DatabaseInfo
| CallbackMessage string "jsvalue list option"
| EventMessage

subsection \<open>Errors and outcomes\<close>

text \<open>
  The three \<^verbatim>\<open>new Error(...)\<close> of the file, the \<^verbatim>\<open>InvalidStateError\<close> a closed
  broadcast channel raises on \<^verbatim>\<open>postMessage\<close>, the \<^verbatim>\<open>DataCloneError\<close> a worker's
  \<^verbatim>\<open>postMessage\<close> raises on a transfer list it cannot transfer, and any value thrown by
  the worker (the \<open>error\<close> field of an error message) or by the caller's own routine.
\<close>

datatype error =
  NotConnected
| ClientDestroyed
| InvalidDatabaseInfo
| InvalidStateError
| DataCloneError
| Thrown jsvalue

text \<open>An awaited promise: fulfilled, rejected, or never settled (the caller stays suspended).\<close>

datatype 'a outcome = Resolved 'a | Rejected error | Pending

subsection \<open>The instance\<close>

datatype LockMode = Shared | Exclusive

type_synonym promise = nat

type_synonym func = nat

datatype event =
  LockRequested LockMode
| LockAcquired LockMode
| LockReleased LockMode
| PostedConfig string QueryKey
| Posted QueryKey Message
| PromiseResolved promise OutputMessage
| PromiseRejected promise jsvalue
| CallbackInvoked func "jsvalue list"
| OnConnectInvoked func
| UnhandledError jsvalue
| Broadcast string QueryKey

record Worker =
  listening :: bool
  terminated :: bool

record BroadcastChannel =
  channelName :: string
  closed :: bool

text \<open>
  The fields of the class. \<open>queriesInProgress\<close> maps a key to the promise whose
  \<^verbatim>\<open>[resolve, reject]\<close> pair is stored there. \<open>keyCounter\<close> and \<open>promiseCounter\<close>
  are the supplies of fresh keys and fresh promises.
\<close>

record SQLocal =
  databasePath :: string
  onConnect :: "func option"
  clientKey :: QueryKey
  worker :: "Worker option"
  isWorkerDestroyed :: bool
  bypassMutationLock :: bool
  userCallbacks :: "string \<rightharpoonup> func"
  queriesInProgress :: "QueryKey \<rightharpoonup> promise"
  proxy :: "(string \<rightharpoonup> func) option"
  reinitChannel :: BroadcastChannel
  keyCounter :: nat
  promiseCounter :: nat
  trace :: "event list"

type_synonym 'a async = "SQLocal \<Rightarrow> 'a outcome \<times> SQLocal"

text \<open>
  The worker is a black box: given everything that has happened so far, it decides which
  messages reach the client while a call is waiting for its reply.
\<close>

type_synonym engine = "event list \<Rightarrow> OutputMessage list"

definition log :: "event \<Rightarrow> SQLocal \<Rightarrow> SQLocal" where
  "log e s = s\<lparr>trace := trace s @ [e]\<rparr>"

subsection \<open>Sequencing of awaited calls\<close>

definition andThen :: "'a async \<Rightarrow> ('a \<Rightarrow> 'b async) \<Rightarrow> 'b async" where
  "andThen m f s =
     (case m s of
        (Resolved a, s') \<Rightarrow> f a s'
      | (Rejected e, s') \<Rightarrow> (Rejected e, s')
      | (Pending, s') \<Rightarrow> (Pending, s'))"

definition tryCatch :: "'a async \<Rightarrow> (error \<Rightarrow> 'a async) \<Rightarrow> 'a async" where
  "tryCatch m h s =
     (case m s of
        (Rejected e, s') \<Rightarrow> h e s'
      | (Resolved a, s') \<Rightarrow> (Resolved a, s')
      | (Pending, s') \<Rightarrow> (Pending, s'))"

text \<open>A \<^verbatim>\<open>finally\<close> block of plain assignments; it does not run while the body is suspended.\<close>

definition tryFinally :: "'a async \<Rightarrow> (SQLocal \<Rightarrow> SQLocal) \<Rightarrow> 'a async" where
  "tryFinally m fin s =
     (case m s of
        (Pending, s') \<Rightarrow> (Pending, s')
      | (Resolved a, s') \<Rightarrow> (Resolved a, fin s')
      | (Rejected e, s') \<Rightarrow> (Rejected e, fin s'))"

subsection \<open>Helpers that live outside client.ts\<close>

text \<open>
  Modelled from the spec: \<^verbatim>\<open>getQueryKey\<close> (lib/get-query-key) is not among the sources.
  The spec calls the key an opaque unique token generated per outbound request; here the
  \<open>n\<close>-th key is the letter q followed by \<open>n\<close> strokes, so keys are non-empty and distinct.
\<close>

definition keyOf :: "nat \<Rightarrow> QueryKey" where
  "keyOf n = CHR ''q'' # replicate n CHR ''|''"

definition getQueryKey :: "SQLocal \<Rightarrow> QueryKey \<times> SQLocal" where
  "getQueryKey s = (keyOf (keyCounter s), s\<lparr>keyCounter := Suc (keyCounter s)\<rparr>)"

text \<open>
  Modelled from the spec: \<^verbatim>\<open>mutationLock\<close> (lib/mutation-lock) is not among the sources.
  Section 4.2 of the spec: \<open>bypass = true\<close> skips acquisition entirely; otherwise the lock
  is acquired in the given mode, the guarded operation runs, and the lock is released on
  every exit path of the operation, thrown failures included. Holders of the shared mode
  may run together; the exclusive mode is granted only while nobody else holds the lock,
  and no shared holder is admitted while it is held. Acquisition has no timeout: a caller
  that is not admitted stays suspended, and its request is recorded. An operation that
  never settles never releases.

  The spec does not fix the order in which suspended callers are served. Here they are
  served in the order of their requests, as by the lock manager of a browser: a caller is
  also suspended while an earlier caller still waits. The statements about the lock say
  what happens when nobody waits and when a conflicting lock is held, which does not
  depend on that order.

  The locks held are read off the trace: those acquired and not yet released. They are
  the locks of this client's own calls; holders in other clients of the same database are
  outside the model. The configuration argument of the source names the database whose
  lock is meant; a client has one database, so the argument is left out.
\<close>

fun lockStep :: "LockMode list \<Rightarrow> event \<Rightarrow> LockMode list" where
  "lockStep h (LockAcquired mode) = mode # h"
| "lockStep h (LockReleased mode) = remove1 mode h"
| "lockStep h _ = h"

definition held :: "event list \<Rightarrow> LockMode list" where
  "held t = foldl lockStep [] t"

fun queued :: "event list \<Rightarrow> bool" where
  "queued [] = False"
| "queued (LockRequested mode # es) = True"
| "queued (_ # es) = queued es"

definition compatible :: "LockMode list \<Rightarrow> LockMode \<Rightarrow> bool" where
  "compatible h mode =
     (case mode of
        Shared \<Rightarrow> Exclusive \<notin> set h
      | Exclusive \<Rightarrow> h = [])"

definition admits :: "SQLocal \<Rightarrow> LockMode \<Rightarrow> bool" where
  "admits s mode = (compatible (held (trace s)) mode \<and> \<not> queued (trace s))"

definition mutationLock :: "LockMode \<Rightarrow> bool \<Rightarrow> 'a async \<Rightarrow> 'a async" where
  "mutationLock mode bypass mutation s =
     (if bypass then mutation s
      else if admits s mode
        then tryFinally mutation (log (LockReleased mode)) (log (LockAcquired mode) s)
      else (Pending, log (LockRequested mode) s))"

subsection \<open>Inbound messages: processMessageEvent\<close>

text \<open>\<^verbatim>\<open>message.queryKey && queries.has(message.queryKey)\<close>: an empty string is falsy.\<close>

definition keyInProgress :: "QueryKey option \<Rightarrow> SQLocal \<Rightarrow> bool" where
  "keyInProgress k s =
     (case k of
        None \<Rightarrow> False
      | Some q \<Rightarrow> q \<noteq> [] \<and> queriesInProgress s q \<noteq> None)"

text \<open>The branch taken when the key is in progress: settle the promise, then delete the entry.\<close>

definition settle :: "QueryKey \<Rightarrow> OutputMessage \<Rightarrow> SQLocal \<Rightarrow> SQLocal" where
  "settle q message s =
     (case queriesInProgress s q of
        None \<Rightarrow> s
      | Some p \<Rightarrow>
          (let s1 = (case message of
                       ErrorMessage _ err \<Rightarrow> log (PromiseRejected p err) s
                     | _ \<Rightarrow> log (PromiseResolved p message) s)
           in s1\<lparr>queriesInProgress := (queriesInProgress s1)(q := None)\<rparr>))"

text \<open>The \<^verbatim>\<open>else if\<close> branch: an error nobody waits for is thrown out of the handler.\<close>

definition unmatched :: "OutputMessage \<Rightarrow> SQLocal \<Rightarrow> jsvalue option \<times> SQLocal" where
  "unmatched message s =
     (case message of
        ErrorMessage _ err \<Rightarrow> (Some err, s)
      | _ \<Rightarrow> (None, s))"

definition terminal :: "QueryKey option \<Rightarrow> OutputMessage \<Rightarrow> SQLocal \<Rightarrow> jsvalue option \<times> SQLocal" where
  "terminal k message s =
     (case k of
        None \<Rightarrow> unmatched message s
      | Some q \<Rightarrow>
          if keyInProgress k s then (None, settle q message s) else unmatched message s)"

text \<open>
  The result is the value the handler throws, if any. A user callback and the
  \<open>onConnect\<close> hook are the caller's code: their invocation is recorded, their bodies
  are not part of the model.
\<close>

fun processMessageEvent :: "OutputMessage \<Rightarrow> SQLocal \<Rightarrow> jsvalue option \<times> SQLocal" where
  "processMessageEvent (SuccessMessage k) s = terminal k (SuccessMessage k) s"
| "processMessageEvent (DataMessage k d) s = terminal k (DataMessage k d) s"
| "processMessageEvent (ErrorMessage k err) s = terminal k (ErrorMessage k err) s"
| "processMessageEvent (InfoMessage k i) s = terminal k (InfoMessage k i) s"
| "processMessageEvent (CallbackMessage name args) s =
     (case userCallbacks s name of
        Some userCallback \<Rightarrow>
          (None, log (CallbackInvoked userCallback (case args of None \<Rightarrow> [] | Some a \<Rightarrow> a)) s)
      | None \<Rightarrow> (None, s))"
| "processMessageEvent EventMessage s =
     (case onConnect s of
        Some f \<Rightarrow> (None, log (OnConnectInvoked f) s)
      | None \<Rightarrow> (None, s))"

text \<open>
  The worker's \<^verbatim>\<open>message\<close> event: the handler runs only while it is registered on a
  worker; what it throws is an unhandled error of the page.
\<close>

definition dispatch :: "OutputMessage \<Rightarrow> SQLocal \<Rightarrow> SQLocal" where
  "dispatch message s =
     (case worker s of
        None \<Rightarrow> s
      | Some w \<Rightarrow>
          if listening w then
            (case processMessageEvent message s of
               (None, s') \<Rightarrow> s'
             | (Some err, s') \<Rightarrow> log (UnhandledError err) s')
          else s)"

fun deliver :: "OutputMessage list \<Rightarrow> SQLocal \<Rightarrow> SQLocal" where
  "deliver [] s = s"
| "deliver (m # ms) s = deliver ms (dispatch m s)"

subsection \<open>Outbound requests: createQuery\<close>

text \<open>How promise \<open>p\<close> was settled by the events \<open>es\<close>; the first settlement counts.\<close>

fun settlement :: "promise \<Rightarrow> event list \<Rightarrow> OutputMessage outcome" where
  "settlement p [] = Pending"
| "settlement p (PromiseResolved p' m # es) = (if p' = p then Resolved m else settlement p es)"
| "settlement p (PromiseRejected p' err # es) =
     (if p' = p then Rejected (Thrown err) else settlement p es)"
| "settlement p (_ # es) = settlement p es"

text \<open>
  \<^verbatim>\<open>await new Promise((resolve, reject) => { this.queriesInProgress.set(queryKey, [resolve, reject]) })\<close>:
  the pair is stored at once, under a fresh promise; the call then waits while the
  worker's messages arrive and are handled. If one of them settles the promise, the call
  resumes with that outcome. If none does, the call stays suspended: the model follows one
  caller, and for a suspended caller nothing happens any more.
\<close>

definition awaitReply :: "engine \<Rightarrow> QueryKey \<Rightarrow> OutputMessage async" where
  "awaitReply eng queryKey s =
     (let p = promiseCounter s;
          s1 = s\<lparr>promiseCounter := Suc p,
                  queriesInProgress := (queriesInProgress s)(queryKey \<mapsto> p)\<rparr>;
          s2 = deliver (eng (trace s1)) s1
      in (settlement p (drop (length (trace s1)) (trace s2)), s2))"

text \<open>\<^verbatim>\<open>message.type === 'import'\<close> and \<^verbatim>\<open>message.type === 'delete'\<close>.\<close>

definition isImport :: "Message \<Rightarrow> bool" where
  "isImport message = (case message of ImportMessage _ \<Rightarrow> True | _ \<Rightarrow> False)"

definition isDelete :: "Message \<Rightarrow> bool" where
  "isDelete message = (case message of DeleteMessage \<Rightarrow> True | _ \<Rightarrow> False)"

text \<open>
  \<^verbatim>\<open>this.worker.postMessage({ ...message, queryKey }, [message.database])\<close>: the import
  branch hands the database over in the transfer list. An \<^verbatim>\<open>ArrayBuffer\<close> and a
  \<^verbatim>\<open>ReadableStream\<close> are transferable; a \<^verbatim>\<open>Uint8Array\<close> is not (nor is a
  \<^verbatim>\<open>Blob\<close>, which \<open>overwriteDatabaseFile\<close> turns into a stream first), and
  \<^verbatim>\<open>postMessage\<close> then throws a \<^verbatim>\<open>DataCloneError\<close> without sending anything.
\<close>

definition transferable :: "DatabaseFile \<Rightarrow> bool" where
  "transferable database =
     (case database of
        ArrayBuffer _ \<Rightarrow> True
      | ReadableStream _ \<Rightarrow> True
      | Uint8Array _ \<Rightarrow> False
      | FileOrBlob _ \<Rightarrow> False)"

text \<open>
  The callback \<open>createQuery\<close> hands to the lock: the two connection checks, a fresh key,
  the post to the worker (by the \<^verbatim>\<open>switch\<close> on the kind of message), the wait for the
  reply.
\<close>

definition createQueryBody :: "engine \<Rightarrow> Message \<Rightarrow> OutputMessage async" where
  "createQueryBody eng message s =
     (case worker s of
        None \<Rightarrow> (Rejected NotConnected, s)
      | Some w \<Rightarrow>
          if isWorkerDestroyed s then (Rejected ClientDestroyed, s)
          else (let (queryKey, s1) = getQueryKey s
                in case message of
                     ImportMessage database \<Rightarrow>
                       if transferable database
                       then awaitReply eng queryKey (log (Posted queryKey message) s1)
                       else (Rejected DataCloneError, s1)
                   | _ \<Rightarrow> awaitReply eng queryKey (log (Posted queryKey message) s1)))"

definition createQuery :: "engine \<Rightarrow> Message \<Rightarrow> OutputMessage async" where
  "createQuery eng message s =
     mutationLock Shared (bypassMutationLock s \<or> isImport message \<or> isDelete message)
       (createQueryBody eng message) s"

subsection \<open>Statements\<close>

definition emptyResult :: RawResultData where
  "emptyResult = \<lparr>rows = [], columns = []\<rparr>"

text \<open>\<^verbatim>\<open>message.data[0]?.rows ?? []\<close> and the same for the columns.\<close>

definition firstResult :: "OutputMessage \<Rightarrow> RawResultData" where
  "firstResult message =
     (case message of
        DataMessage _ d \<Rightarrow>
          \<lparr>rows = (case d of [] \<Rightarrow> [] | r # _ \<Rightarrow> rows r),
           columns = (case d of [] \<Rightarrow> [] | r # _ \<Rightarrow> columns r)\<rparr>
      | _ \<Rightarrow> emptyResult)"

definition exec :: "engine \<Rightarrow> string \<Rightarrow> jsvalue list \<Rightarrow> Sqlite3Method \<Rightarrow> QueryKey option
    \<Rightarrow> RawResultData async" where
  "exec eng sqlText paramValues sqlMethod transactionKey =
     andThen (createQuery eng (QueryMessage transactionKey sqlText paramValues sqlMethod))
       (\<lambda>message s. (Resolved (firstResult message), s))"

text \<open>
  A JavaScript array is a list of slots, \<open>None\<close> an empty slot. Assigning past the end
  extends the array, leaving the slots in between empty.
\<close>

definition arraySet :: "'a option list \<Rightarrow> nat \<Rightarrow> 'a \<Rightarrow> 'a option list" where
  "arraySet xs i v =
     (if i < length xs then xs[i := Some v]
      else xs @ replicate (i - length xs) None @ [Some v])"

text \<open>\<^verbatim>\<open>message.data.forEach((result, resultIndex) => { data[resultIndex] = result })\<close>\<close>

fun forEachAssign :: "'a list \<Rightarrow> nat \<Rightarrow> 'a option list \<Rightarrow> 'a option list" where
  "forEachAssign [] resultIndex data = data"
| "forEachAssign (result # rest) resultIndex data =
     forEachAssign rest (Suc resultIndex) (arraySet data resultIndex result)"

definition batchData :: "nat \<Rightarrow> OutputMessage \<Rightarrow> RawResultData option list" where
  "batchData n message =
     (let data = replicate n (Some emptyResult)
      in case message of
           DataMessage _ d \<Rightarrow> forEachAssign d 0 data
         | _ \<Rightarrow> data)"

definition execBatch :: "engine \<Rightarrow> Statement list \<Rightarrow> RawResultData option list async" where
  "execBatch eng statements =
     andThen (createQuery eng (BatchMessage statements))
       (\<lambda>message s. (Resolved (batchData (length statements) message), s))"

subsection \<open>Transactions\<close>

text \<open>
  The object \<open>beginTransaction\<close> returns holds four closures over one
  \<open>transactionKey\<close>; the key stands for the object.
\<close>

type_synonym Transaction = QueryKey

definition beginTransaction :: "engine \<Rightarrow> Transaction async" where
  "beginTransaction eng s =
     (let (transactionKey, s1) = getQueryKey s
      in andThen (createQuery eng (TransactionMessage transactionKey Begin))
           (\<lambda>_ s2. (Resolved transactionKey, s2)) s1)"

definition commit :: "engine \<Rightarrow> Transaction \<Rightarrow> unit async" where
  "commit eng transactionKey =
     andThen (createQuery eng (TransactionMessage transactionKey Commit))
       (\<lambda>_ s. (Resolved (), s))"

definition rollback :: "engine \<Rightarrow> Transaction \<Rightarrow> unit async" where
  "rollback eng transactionKey =
     andThen (createQuery eng (TransactionMessage transactionKey Rollback))
       (\<lambda>_ s. (Resolved (), s))"

text \<open>
  The \<^verbatim>\<open>try\<close> block after \<open>tx\<close> is assigned: the caller's routine, then the commit.
  The \<^verbatim>\<open>catch\<close> block awaits the rollback and then rethrows what it caught.
\<close>

definition runAndCommit :: "engine \<Rightarrow> (Transaction \<Rightarrow> 'r async) \<Rightarrow> Transaction \<Rightarrow> 'r async" where
  "runAndCommit eng body tx =
     andThen (body tx) (\<lambda>result. andThen (commit eng tx) (\<lambda>_ s. (Resolved result, s)))"

definition rollbackAndRethrow :: "engine \<Rightarrow> Transaction \<Rightarrow> error \<Rightarrow> 'r async" where
  "rollbackAndRethrow eng tx err =
     andThen (rollback eng tx) (\<lambda>_ s. (Rejected err, s))"

text \<open>
  While \<open>beginTransaction\<close> has not returned, \<open>tx\<close> is undefined: if it throws,
  \<^verbatim>\<open>tx?.rollback()\<close> does nothing and the error is rethrown as it is.
\<close>

definition transaction :: "engine \<Rightarrow> (Transaction \<Rightarrow> 'r async) \<Rightarrow> 'r async" where
  "transaction eng body =
     mutationLock Exclusive False
       (\<lambda>s. tryFinally
              (\<lambda>s1. case beginTransaction eng s1 of
                       (Resolved tx, s2) \<Rightarrow>
                         tryCatch (runAndCommit eng body tx) (rollbackAndRethrow eng tx) s2
                     | (Rejected err, s2) \<Rightarrow> (Rejected err, s2)
                     | (Pending, s2) \<Rightarrow> (Pending, s2))
              (\<lambda>s1. s1\<lparr>bypassMutationLock := False\<rparr>)
              (s\<lparr>bypassMutationLock := True\<rparr>))"

subsection \<open>User functions\<close>

definition createCallbackFunction :: "engine \<Rightarrow> string \<Rightarrow> func \<Rightarrow> unit async" where
  "createCallbackFunction eng funcName func =
     andThen (createQuery eng (FunctionMessage funcName CallbackFunction))
       (\<lambda>_ s. (Resolved (), s\<lparr>userCallbacks := (userCallbacks s)(funcName \<mapsto> func)\<rparr>))"

definition proxySlot :: "string \<Rightarrow> string" where
  "proxySlot funcName = ''_sqlocal_func_'' @ funcName"

definition createScalarFunction :: "engine \<Rightarrow> string \<Rightarrow> func \<Rightarrow> unit async" where
  "createScalarFunction eng funcName func =
     andThen (createQuery eng (FunctionMessage funcName ScalarFunction))
       (\<lambda>_ s. (Resolved (),
          (case proxy s of
             Some p \<Rightarrow> s\<lparr>proxy := Some (p(proxySlot funcName \<mapsto> func))\<rparr>
           | None \<Rightarrow> s)))"

definition getDatabaseInfo :: "engine \<Rightarrow> DatabaseInfo async" where
  "getDatabaseInfo eng =
     andThen (createQuery eng GetInfoMessage)
       (\<lambda>message s. case message of
            InfoMessage _ info \<Rightarrow> (Resolved info, s)
          | _ \<Rightarrow> (Rejected InvalidDatabaseInfo, s))"

subsection \<open>Replacing and deleting the database file\<close>

text \<open>\<^verbatim>\<open>this.reinitChannel.postMessage(this.clientKey)\<close>; a closed channel throws.\<close>

definition postReinit :: "unit async" where
  "postReinit s =
     (if closed (reinitChannel s) then (Rejected InvalidStateError, s)
      else (Resolved (), log (Broadcast (channelName (reinitChannel s)) (clientKey s)) s))"

text \<open>\<^verbatim>\<open>if (typeof beforeUnlock === 'function') { this.bypassMutationLock = true; await beforeUnlock(); }\<close>\<close>

definition runBeforeUnlock :: "unit async option \<Rightarrow> unit async" where
  "runBeforeUnlock beforeUnlock s =
     (case beforeUnlock of
        Some hook \<Rightarrow> hook (s\<lparr>bypassMutationLock := True\<rparr>)
      | None \<Rightarrow> (Resolved (), s))"

definition toDatabase :: "DatabaseFile \<Rightarrow> DatabaseFile" where
  "toDatabase databaseFile =
     (case databaseFile of
        FileOrBlob bytes \<Rightarrow> ReadableStream bytes
      | _ \<Rightarrow> databaseFile)"

definition overwriteDatabaseFile :: "engine \<Rightarrow> DatabaseFile \<Rightarrow> unit async option \<Rightarrow> unit async" where
  "overwriteDatabaseFile eng databaseFile beforeUnlock =
     mutationLock Exclusive False
       (tryFinally
          (andThen (createQuery eng (ImportMessage (toDatabase databaseFile)))
             (\<lambda>_. andThen (runBeforeUnlock beforeUnlock) (\<lambda>_. postReinit)))
          (\<lambda>s. s\<lparr>bypassMutationLock := False\<rparr>))"

definition deleteDatabaseFile :: "engine \<Rightarrow> unit async option \<Rightarrow> unit async" where
  "deleteDatabaseFile eng beforeUnlock =
     mutationLock Exclusive False
       (tryFinally
          (andThen (createQuery eng DeleteMessage)
             (\<lambda>_. andThen (runBeforeUnlock beforeUnlock) (\<lambda>_. postReinit)))
          (\<lambda>s. s\<lparr>bypassMutationLock := False\<rparr>))"

subsection \<open>Construction and teardown\<close>

text \<open>
  The constructor, for a configuration \<open>{databasePath, onConnect}\<close>. \<open>hasWorker\<close> says
  whether \<^verbatim>\<open>globalThis.Worker\<close> is defined; \<open>n\<close> is where the key supply stands.
\<close>

definition newSQLocal :: "string \<Rightarrow> func option \<Rightarrow> bool \<Rightarrow> nat \<Rightarrow> SQLocal" where
  "newSQLocal path hook hasWorker n =
     \<lparr>databasePath = path,
      onConnect = hook,
      clientKey = keyOf n,
      worker = (if hasWorker then Some \<lparr>listening = True, terminated = False\<rparr> else None),
      isWorkerDestroyed = False,
      bypassMutationLock = False,
      userCallbacks = Map.empty,
      queriesInProgress = Map.empty,
      proxy = (if hasWorker then Some Map.empty else None),
      reinitChannel = \<lparr>channelName = ''_sqlocal_reinit_('' @ path @ '')'', closed = False\<rparr>,
      keyCounter = Suc n,
      promiseCounter = 0,
      trace = (if hasWorker then [PostedConfig path (keyOf n)] else [])\<rparr>"

definition teardown :: "SQLocal \<Rightarrow> SQLocal" where
  "teardown s =
     s\<lparr>worker := map_option (\<lambda>w. w\<lparr>listening := False, terminated := True\<rparr>) (worker s),
       queriesInProgress := Map.empty,
       userCallbacks := Map.empty,
       reinitChannel := (reinitChannel s)\<lparr>closed := True\<rparr>,
       isWorkerDestroyed := True\<rparr>"

definition destroy :: "engine \<Rightarrow> unit async" where
  "destroy eng =
     andThen (createQuery eng DestroyMessage) (\<lambda>_ s. (Resolved (), teardown s))"

section \<open>Notions used in the statements\<close>

subsection \<open>Reading the trace\<close>

text \<open>The events a message from the worker can cause.\<close>

definition isInbound :: "event \<Rightarrow> bool" where
  "isInbound e =
     (case e of
        PromiseResolved _ _ \<Rightarrow> True
      | PromiseRejected _ _ \<Rightarrow> True
      | CallbackInvoked _ _ \<Rightarrow> True
      | OnConnectInvoked _ \<Rightarrow> True
      | UnhandledError _ \<Rightarrow> True
      | _ \<Rightarrow> False)"

definition isLockEvent :: "event \<Rightarrow> bool" where
  "isLockEvent e =
     (case e of
        LockRequested _ \<Rightarrow> True
      | LockAcquired _ \<Rightarrow> True
      | LockReleased _ \<Rightarrow> True
      | _ \<Rightarrow> False)"



subsection \<open>Reading the instance\<close>

text \<open>The fields that no message and no request changes.\<close>

definition rigid :: "SQLocal \<Rightarrow> SQLocal \<Rightarrow> bool" where
  "rigid s s' =
     (databasePath s' = databasePath s \<and> onConnect s' = onConnect s \<and>
      clientKey s' = clientKey s \<and> worker s' = worker s \<and>
      isWorkerDestroyed s' = isWorkerDestroyed s \<and>
      bypassMutationLock s' = bypassMutationLock s \<and>
      userCallbacks s' = userCallbacks s \<and> proxy s' = proxy s \<and>
      reinitChannel s' = reinitChannel s)"

text \<open>Both checks of \<open>createQuery\<close> pass.\<close>

definition connected :: "SQLocal \<Rightarrow> bool" where
  "connected s = (worker s \<noteq> None \<and> \<not> isWorkerDestroyed s)"

text \<open>Both checks pass and the handler is still registered on the worker.\<close>

definition attached :: "SQLocal \<Rightarrow> bool" where
  "attached s = (case worker s of Some w \<Rightarrow> listening w \<and> \<not> isWorkerDestroyed s | None \<Rightarrow> False)"


text \<open>The second argument \<open>createQuery\<close> gives to \<open>mutationLock\<close>.\<close>

definition skipsLock :: "SQLocal \<Rightarrow> Message \<Rightarrow> bool" where
  "skipsLock s message = (bypassMutationLock s \<or> isImport message \<or> isDelete message)"

text \<open>The request is let past the lock: acquisition is skipped or the shared lock is granted.\<close>

definition admitted :: "SQLocal \<Rightarrow> Message \<Rightarrow> bool" where
  "admitted s message = (skipsLock s message \<or> admits s Shared)"

text \<open>\<^verbatim>\<open>postMessage\<close> accepts the request: an import carries a transferable database.\<close>

definition postable :: "Message \<Rightarrow> bool" where
  "postable message = (case message of ImportMessage database \<Rightarrow> transferable database | _ \<Rightarrow> True)"

text \<open>The request reaches the worker.\<close>

definition reaches :: "SQLocal \<Rightarrow> Message \<Rightarrow> bool" where
  "reaches s message = (connected s \<and> admitted s message \<and> postable message)"

text \<open>
  What has happened when the worker sees a request sent from \<open>s\<close>: the shared lock if it
  is taken, then the post, under the next fresh key.
\<close>

definition requestTrace :: "SQLocal \<Rightarrow> Message \<Rightarrow> event list" where
  "requestTrace s message =
     trace s @ (if bypassMutationLock s \<or> isImport message \<or> isDelete message then []
                else [LockAcquired Shared])
       @ [Posted (keyOf (keyCounter s)) message]"

text \<open>
  \<open>s1\<close> is a state after the exclusive lock was acquired from \<open>s\<close> and before it is
  released.
\<close>

definition heldExclusive :: "SQLocal \<Rightarrow> SQLocal \<Rightarrow> bool" where
  "heldExclusive s s1 =
     (take (Suc (length (trace s))) (trace s1) = trace s @ [LockAcquired Exclusive] \<and>
      LockReleased Exclusive \<notin> set (drop (Suc (length (trace s))) (trace s1)))"

text \<open>The error of the check that fails first.\<close>

definition refusal :: "SQLocal \<Rightarrow> error" where
  "refusal s = (if worker s = None then NotConnected else ClientDestroyed)"

text \<open>The events of a call that was granted lock \<open>mode\<close> and failed its checks.\<close>

definition passed :: "LockMode \<Rightarrow> event list" where
  "passed mode = [LockAcquired mode, LockReleased mode]"


text \<open>The exit of an exclusive section whose \<^verbatim>\<open>finally\<close> block clears the flag.\<close>

definition release :: "SQLocal \<Rightarrow> SQLocal" where
  "release s = log (LockReleased Exclusive) (s\<lparr>bypassMutationLock := False\<rparr>)"

subsection \<open>Reading a message from the worker\<close>

definition queryKeyOf :: "OutputMessage \<Rightarrow> QueryKey option" where
  "queryKeyOf message =
     (case message of
        SuccessMessage k \<Rightarrow> k
      | DataMessage k _ \<Rightarrow> k
      | ErrorMessage k _ \<Rightarrow> k
      | InfoMessage k _ \<Rightarrow> k
      | _ \<Rightarrow> None)"

definition isTerminal :: "OutputMessage \<Rightarrow> bool" where
  "isTerminal message =
     (case message of
        CallbackMessage _ _ \<Rightarrow> False
      | EventMessage \<Rightarrow> False
      | _ \<Rightarrow> True)"

definition isData :: "OutputMessage \<Rightarrow> bool" where
  "isData message = (case message of DataMessage _ _ \<Rightarrow> True | _ \<Rightarrow> False)"

text \<open>How a terminal message completes promise \<open>p\<close>, and what it throws when nobody waits.\<close>

definition completion :: "promise \<Rightarrow> OutputMessage \<Rightarrow> event" where
  "completion p message =
     (case message of
        ErrorMessage _ err \<Rightarrow> PromiseRejected p err
      | _ \<Rightarrow> PromiseResolved p message)"

definition thrownBy :: "OutputMessage \<Rightarrow> jsvalue option" where
  "thrownBy message = (case message of ErrorMessage _ err \<Rightarrow> Some err | _ \<Rightarrow> None)"

subsection \<open>The two file operations as one\<close>

text \<open>
  \<open>overwriteDatabaseFile\<close> and \<open>deleteDatabaseFile\<close> have the same body around
  different requests; \<open>guarded\<close> is that body, for the proofs about both.
\<close>

definition guarded :: "engine \<Rightarrow> Message \<Rightarrow> unit async option \<Rightarrow> unit async" where
  "guarded eng message beforeUnlock =
     mutationLock Exclusive False
       (tryFinally
          (andThen (createQuery eng message)
             (\<lambda>_. andThen (runBeforeUnlock beforeUnlock) (\<lambda>_. postReinit)))
          (\<lambda>s. s\<lparr>bypassMutationLock := False\<rparr>))"

subsection \<open>What may happen to a client later\<close>

text \<open>
  Every method of the class, as a call whose result value is dropped; and a later history
  of a client: messages arriving from the worker and methods being called, in any order.
\<close>

datatype call =
  CallQuery Message
| CallExec string "jsvalue list" Sqlite3Method "QueryKey option"
| CallExecBatch "Statement list"
| CallBeginTransaction
| CallTransaction "Transaction \<Rightarrow> unit async"
| CallCreateCallbackFunction string func
| CallCreateScalarFunction string func
| CallGetDatabaseInfo
| CallOverwriteDatabaseFile DatabaseFile "unit async option"
| CallDeleteDatabaseFile "unit async option"
| CallDestroy

definition void :: "'a async \<Rightarrow> unit async" where
  "void m = andThen m (\<lambda>_ s. (Resolved (), s))"

fun perform :: "engine \<Rightarrow> call \<Rightarrow> unit async" where
  "perform eng (CallQuery message) = void (createQuery eng message)"
| "perform eng (CallExec sqlText paramValues sqlMethod transactionKey) =
     void (exec eng sqlText paramValues sqlMethod transactionKey)"
| "perform eng (CallExecBatch statements) = void (execBatch eng statements)"
| "perform eng CallBeginTransaction = void (beginTransaction eng)"
| "perform eng (CallTransaction body) = transaction eng body"
| "perform eng (CallCreateCallbackFunction funcName func) = createCallbackFunction eng funcName func"
| "perform eng (CallCreateScalarFunction funcName func) = createScalarFunction eng funcName func"
| "perform eng CallGetDatabaseInfo = void (getDatabaseInfo eng)"
| "perform eng (CallOverwriteDatabaseFile databaseFile beforeUnlock) =
     overwriteDatabaseFile eng databaseFile beforeUnlock"
| "perform eng (CallDeleteDatabaseFile beforeUnlock) = deleteDatabaseFile eng beforeUnlock"
| "perform eng CallDestroy = destroy eng"

text \<open>
  The lock a method asks for before it does anything else, if any: the exclusive lock for
  the structured transaction and the two file operations, the shared lock for a request
  made through \<open>createQuery\<close> unless acquisition is skipped. The methods other than
  \<open>createQuery\<close> itself send requests that are neither imports nor deletes.
\<close>

fun lockOf :: "call \<Rightarrow> SQLocal \<Rightarrow> LockMode option" where
  "lockOf (CallQuery message) s = (if skipsLock s message then None else Some Shared)"
| "lockOf (CallTransaction body) s = Some Exclusive"
| "lockOf (CallOverwriteDatabaseFile databaseFile beforeUnlock) s = Some Exclusive"
| "lockOf (CallDeleteDatabaseFile beforeUnlock) s = Some Exclusive"
| "lockOf _ s = (if bypassMutationLock s then None else Some Shared)"



section \<open>Sample clients, workers and caller routines\<close>

text \<open>A client constructed in a browser, for the database file \<open>app.sqlite3\<close>.\<close>

definition client0 :: SQLocal where
  "client0 = newSQLocal ''app.sqlite3'' None True 0"

text \<open>The same construction where no \<^verbatim>\<open>Worker\<close> exists, as on a server.\<close>

definition serverClient :: SQLocal where
  "serverClient = newSQLocal ''app.sqlite3'' None False 0"

text \<open>A worker that never answers, and workers that answer the request just posted.\<close>

definition silentEngine :: engine where
  "silentEngine t = []"

definition replyTo :: "(QueryKey \<Rightarrow> Message \<Rightarrow> OutputMessage list) \<Rightarrow> engine" where
  "replyTo f t = (case rev t of Posted k message # _ \<Rightarrow> f k message | _ \<Rightarrow> [])"

definition okEngine :: engine where
  "okEngine = replyTo (\<lambda>k message. [SuccessMessage (Some k)])"

definition failingEngine :: engine where
  "failingEngine = replyTo (\<lambda>k message. [ErrorMessage (Some k) (JsString ''SQLITE_ERROR'')])"

definition dataEngine :: "RawResultData list \<Rightarrow> engine" where
  "dataEngine d = replyTo (\<lambda>k message. [DataMessage (Some k) d])"

definition rollbackFailingEngine :: engine where
  "rollbackFailingEngine =
     replyTo (\<lambda>k message.
       case message of
         TransactionMessage _ Rollback \<Rightarrow> [ErrorMessage (Some k) (JsString ''cannot rollback'')]
       | _ \<Rightarrow> [SuccessMessage (Some k)])"

text \<open>A client with one call waiting: \<open>getDatabaseInfo\<close> was called and no answer came.\<close>

definition waitingClient :: SQLocal where
  "waitingClient = snd (createQuery silentEngine GetInfoMessage client0)"

text \<open>A client that was destroyed; the worker acknowledged the request.\<close>

definition destroyedClient :: SQLocal where
  "destroyedClient = snd (destroy okEngine client0)"

text \<open>
  The client with one call waiting, destroyed: the waiting call is abandoned while it
  holds the shared lock.
\<close>

definition abandonedClient :: SQLocal where
  "abandonedClient = snd (destroy okEngine waitingClient)"

text \<open>A transaction routine that throws, and two \<open>beforeUnlock\<close> hooks.\<close>

definition throwingBody :: "Transaction \<Rightarrow> unit async" where
  "throwingBody tx s = (Rejected (Thrown (JsString ''body failed'')), s)"

definition vacuumHook :: "unit async" where
  "vacuumHook = void (exec okEngine ''VACUUM'' [] ''all'' None)"

definition throwingHook :: "unit async" where
  "throwingHook s = (Rejected (Thrown (JsString ''hook failed'')), s)"

definition oneRow :: "int \<Rightarrow> RawResultData" where
  "oneRow n = \<lparr>rows = [[JsNumber n]], columns = [''id'']\<rparr>"

section \<open>Auxiliary facts\<close>

lemma rigid_refl: "rigid s s"
  by (simp add: rigid_def)

lemma rigid_trans: "rigid a b \<Longrightarrow> rigid b c \<Longrightarrow> rigid a c"
  by (simp add: rigid_def)

lemma processMessageEvent_rigid: "rigid s (snd (processMessageEvent m s))"
  by (cases m)
     (auto simp: rigid_def terminal_def unmatched_def settle_def log_def Let_def
           split: option.splits OutputMessage.splits)

lemma processMessageEvent_trace:
  "\<exists>es. list_all isInbound es \<and> trace (snd (processMessageEvent m s)) = trace s @ es"
  by (cases m)
     (auto simp: terminal_def unmatched_def settle_def log_def Let_def isInbound_def
           split: option.splits OutputMessage.splits)

lemma dispatch_rigid: "rigid s (dispatch m s)"
  using processMessageEvent_rigid [of s m]
  by (auto simp: dispatch_def rigid_def log_def split: option.splits prod.splits)

lemma dispatch_trace: "\<exists>es. list_all isInbound es \<and> trace (dispatch m s) = trace s @ es"
  using processMessageEvent_trace [of m s]
  by (auto simp: dispatch_def log_def isInbound_def split: option.splits prod.splits)

lemma deliver_rigid: "rigid s (deliver ms s)"
proof (induction ms arbitrary: s)
  case Nil
  show ?case by (simp add: rigid_refl)
next
  case (Cons m ms)
  show ?case using rigid_trans [OF dispatch_rigid [of s m] Cons.IH [of "dispatch m s"]] by simp
qed

lemma deliver_trace: "\<exists>es. list_all isInbound es \<and> trace (deliver ms s) = trace s @ es"
proof (induction ms arbitrary: s)
  case Nil
  show ?case by simp
next
  case (Cons m ms)
  obtain es1 where e1: "list_all isInbound es1" "trace (dispatch m s) = trace s @ es1"
    using dispatch_trace by blast
  obtain es2 where e2: "list_all isInbound es2"
      "trace (deliver ms (dispatch m s)) = trace (dispatch m s) @ es2"
    using Cons.IH by blast
  show ?case using e1 e2 by (intro exI [of _ "es1 @ es2"]) simp
qed

lemma awaitReply_rigid: "rigid s (snd (awaitReply eng k s))"
  using deliver_rigid [of "s\<lparr>promiseCounter := Suc (promiseCounter s),
      queriesInProgress := (queriesInProgress s)(k \<mapsto> promiseCounter s)\<rparr>"]
  by (simp add: awaitReply_def Let_def rigid_def)

lemma awaitReply_trace:
  "\<exists>es. list_all isInbound es \<and> trace (snd (awaitReply eng k s)) = trace s @ es"
  using deliver_trace [of "eng (trace s)" "s\<lparr>promiseCounter := Suc (promiseCounter s),
      queriesInProgress := (queriesInProgress s)(k \<mapsto> promiseCounter s)\<rparr>"]
  by (simp add: awaitReply_def Let_def)

lemma createQueryBody_eq:
  "createQueryBody eng message s =
     (if \<not> connected s then (Rejected (refusal s), s)
      else if postable message
        then awaitReply eng (keyOf (keyCounter s))
               (log (Posted (keyOf (keyCounter s)) message) (s\<lparr>keyCounter := Suc (keyCounter s)\<rparr>))
      else (Rejected DataCloneError, s\<lparr>keyCounter := Suc (keyCounter s)\<rparr>))"
  by (auto simp: createQueryBody_def getQueryKey_def connected_def refusal_def postable_def
           split: option.splits Message.splits)

lemma createQuery_eq:
  "createQuery eng message s =
     (if skipsLock s message then createQueryBody eng message s
      else if admits s Shared
        then tryFinally (createQueryBody eng message) (log (LockReleased Shared))
               (log (LockAcquired Shared) s)
      else (Pending, log (LockRequested Shared) s))"
  by (simp add: createQuery_def mutationLock_def skipsLock_def)

lemma tryFinally_fst: "fst (tryFinally m fin s) = fst (m s)"
  by (simp add: tryFinally_def split: prod.splits outcome.splits)

lemma tryFinally_snd:
  "snd (tryFinally m fin s) = (if fst (m s) = Pending then snd (m s) else fin (snd (m s)))"
  by (simp add: tryFinally_def split: prod.splits outcome.splits)

lemma held_snoc: "held (t @ [e]) = lockStep (held t) e"
  by (simp add: held_def)



lemma queued_append: "queued (t @ es) = (queued t \<or> queued es)"
  by (induction t rule: queued.induct) simp_all

lemma log_simps:
  "connected (log e s) = connected s"
  "attached (log e s) = attached s"
  "refusal (log e s) = refusal s"
  "keyCounter (log e s) = keyCounter s"
  "queriesInProgress (log e s) = queriesInProgress s"
  "trace (log e s) = trace s @ [e]"
  by (auto simp: connected_def attached_def refusal_def log_def split: option.splits)

lemma log_rigid: "rigid s (log e s)"
  by (simp add: rigid_def log_def)

lemma createQueryBody_rigid: "rigid s (snd (createQueryBody eng message s))"
proof (cases "connected s \<and> postable message")
  case True
  have "rigid (log (Posted (keyOf (keyCounter s)) message) (s\<lparr>keyCounter := Suc (keyCounter s)\<rparr>))
          (snd (awaitReply eng (keyOf (keyCounter s))
             (log (Posted (keyOf (keyCounter s)) message) (s\<lparr>keyCounter := Suc (keyCounter s)\<rparr>))))"
    by (rule awaitReply_rigid)
  with True show ?thesis
    by (simp add: createQueryBody_eq rigid_def log_def)
next
  case False
  then show ?thesis
    by (auto simp: createQueryBody_eq rigid_def)
qed

lemma createQueryBody_shape:
  "\<exists>es. list_all isInbound es \<and>
     trace (snd (createQueryBody eng message s)) =
       trace s @ (if connected s \<and> postable message
                  then Posted (keyOf (keyCounter s)) message # es else [])"
proof (cases "connected s \<and> postable message")
  case True
  from awaitReply_trace [where eng = eng and k = "keyOf (keyCounter s)"
      and s = "log (Posted (keyOf (keyCounter s)) message) (s\<lparr>keyCounter := Suc (keyCounter s)\<rparr>)"]
  obtain es where "list_all isInbound es"
    "trace (snd (awaitReply eng (keyOf (keyCounter s))
        (log (Posted (keyOf (keyCounter s)) message) (s\<lparr>keyCounter := Suc (keyCounter s)\<rparr>)))) =
     trace (log (Posted (keyOf (keyCounter s)) message) (s\<lparr>keyCounter := Suc (keyCounter s)\<rparr>)) @ es"
    by blast
  with True show ?thesis
    by (intro exI [of _ es]) (simp add: createQueryBody_eq log_def)
next
  case False
  then have "trace (snd (createQueryBody eng message s)) = trace s"
    by (auto simp: createQueryBody_eq)
  with False show ?thesis
    by (intro exI [of _ "[]"]) auto
qed

lemma createQuery_rigid: "rigid s (snd (createQuery eng message s))"
proof -
  have a: "rigid s (snd (createQueryBody eng message s))"
    by (rule createQueryBody_rigid)
  have b: "rigid s (snd (createQueryBody eng message (log (LockAcquired Shared) s)))"
    by (rule rigid_trans [OF log_rigid createQueryBody_rigid])
  have c: "rigid s (log (LockReleased Shared)
             (snd (createQueryBody eng message (log (LockAcquired Shared) s))))"
    by (rule rigid_trans [OF b log_rigid])
  show ?thesis
    using a b c by (simp add: createQuery_eq tryFinally_snd log_rigid)
qed

lemma createQuery_refused:
  "\<not> connected s \<Longrightarrow>
   createQuery eng message s =
     (if admitted s message then Rejected (refusal s) else Pending,
      if skipsLock s message then s
      else s\<lparr>trace := trace s @ (if admits s Shared then passed Shared
                                   else [LockRequested Shared])\<rparr>)"
  by (simp add: createQuery_eq createQueryBody_eq tryFinally_def log_simps admitted_def)
     (simp add: log_def passed_def)

lemma createQuery_shape:
  "\<exists>es. list_all isInbound es \<and>
     trace (snd (createQuery eng message s)) =
       trace s @ (if skipsLock s message then []
                  else if admits s Shared then [LockAcquired Shared]
                  else [LockRequested Shared])
         @ (if reaches s message then Posted (keyOf (keyCounter s)) message # es else [])
         @ (if \<not> skipsLock s message \<and> admits s Shared \<and>
               fst (createQuery eng message s) \<noteq> Pending
            then [LockReleased Shared] else [])"
proof (cases "skipsLock s message")
  case True
  from createQueryBody_shape [of eng message s] True show ?thesis
    by (simp add: createQuery_eq reaches_def admitted_def)
next
  case False
  show ?thesis
  proof (cases "admits s Shared")
    case True
    from createQueryBody_shape [of eng message "log (LockAcquired Shared) s"]
    obtain es where es: "list_all isInbound es"
      "trace (snd (createQueryBody eng message (log (LockAcquired Shared) s))) =
         trace (log (LockAcquired Shared) s) @
           (if connected (log (LockAcquired Shared) s) \<and> postable message
            then Posted (keyOf (keyCounter (log (LockAcquired Shared) s))) message # es else [])"
      by blast
    from es(2) True False show ?thesis
      by (intro exI [of _ es] conjI es(1))
         (simp add: createQuery_eq tryFinally_fst tryFinally_snd log_simps reaches_def
            admitted_def)
  next
    case False
    with \<open>\<not> skipsLock s message\<close> show ?thesis
      by (intro exI [of _ "[]"]) (simp add: createQuery_eq reaches_def admitted_def log_simps)
  qed
qed

lemma awaitReply_single:
  assumes "worker s = Some w" and "listening w" and "k \<noteq> []"
    and "eng (trace s) = [message]" and "queryKeyOf message = Some k"
  shows "fst (awaitReply eng k s) =
           (case message of
              ErrorMessage _ err \<Rightarrow> Rejected (Thrown err)
            | _ \<Rightarrow> Resolved message)"
  using assms
  by (cases message)
     (auto simp: awaitReply_def Let_def dispatch_def queryKeyOf_def terminal_def
           keyInProgress_def settle_def log_def)

lemma inbound_no_lock: "list_all isInbound es \<Longrightarrow> filter isLockEvent es = []"
  by (induction es) (auto simp: isInbound_def isLockEvent_def split: event.splits)



lemmas eval_defs = client0_def newSQLocal_def createQuery_def createQueryBody_def
  mutationLock_def tryFinally_def andThen_def tryCatch_def awaitReply_def getQueryKey_def
  log_def dispatch_def terminal_def unmatched_def keyInProgress_def settle_def keyOf_def
  isImport_def isDelete_def teardown_def Let_def silentEngine_def replyTo_def okEngine_def
  failingEngine_def dataEngine_def waitingClient_def held_def admits_def compatible_def
  transferable_def passed_def


lemma createQueryBody_single:
  assumes "attached s" and "postable message"
    and "eng (trace s @ [Posted (keyOf (keyCounter s)) message]) = [reply]"
    and "queryKeyOf reply = Some (keyOf (keyCounter s))"
  shows "fst (createQueryBody eng message s) =
           (case reply of
              ErrorMessage _ err \<Rightarrow> Rejected (Thrown err)
            | _ \<Rightarrow> Resolved reply)"
proof -
  from assms(1) obtain w where w: "worker s = Some w" "listening w" "\<not> isWorkerDestroyed s"
    by (auto simp: attached_def split: option.splits)
  let ?s1 = "log (Posted (keyOf (keyCounter s)) message) (s\<lparr>keyCounter := Suc (keyCounter s)\<rparr>)"
  have a: "worker ?s1 = Some w"
    using w by (simp add: log_def)
  have b: "keyOf (keyCounter s) \<noteq> []"
    by (simp add: keyOf_def)
  have c: "eng (trace ?s1) = [reply]"
    using assms(3) by (simp add: log_def)
  have "createQueryBody eng message s = awaitReply eng (keyOf (keyCounter s)) ?s1"
    using w assms(2) by (simp add: createQueryBody_eq connected_def)
  then show ?thesis
    using awaitReply_single [where eng = eng and s = ?s1 and message = reply,
        OF a w(2) b c assms(4)]
    by simp
qed

lemma createQuery_single:
  assumes "attached s" and "admitted s message" and "postable message"
    and "eng (requestTrace s message) = [reply]"
    and "queryKeyOf reply = Some (keyOf (keyCounter s))"
  shows "fst (createQuery eng message s) =
           (case reply of
              ErrorMessage _ err \<Rightarrow> Rejected (Thrown err)
            | _ \<Rightarrow> Resolved reply)"
proof (cases "skipsLock s message")
  case True
  from True assms(4) have "eng (trace s @ [Posted (keyOf (keyCounter s)) message]) = [reply]"
    by (simp add: requestTrace_def skipsLock_def)
  from createQueryBody_single [where eng = eng and s = s and message = message
      and reply = reply, OF assms(1) assms(3) this assms(5)] True
  show ?thesis
    by (simp add: createQuery_eq)
next
  case False
  let ?s0 = "log (LockAcquired Shared) s"
  from False assms(2) have g: "admits s Shared"
    by (simp add: admitted_def)
  have a: "attached ?s0"
    using assms(1) by (simp add: log_simps)
  from False assms(4) have
    "eng (trace ?s0 @ [Posted (keyOf (keyCounter ?s0)) message]) = [reply]"
    by (simp add: requestTrace_def skipsLock_def log_def)
  from createQueryBody_single [where eng = eng and s = ?s0 and message = message
      and reply = reply, OF a assms(3) this] assms(5) False g
  show ?thesis
    by (simp add: createQuery_eq tryFinally_fst log_simps)
qed

lemma andThen_fst_pure:
  "fst (andThen m (\<lambda>a s. (Resolved (f a), g a s)) s) =
     (case fst (m s) of Resolved a \<Rightarrow> Resolved (f a) | Rejected e \<Rightarrow> Rejected e
      | Pending \<Rightarrow> Pending)"
  by (simp add: andThen_def split: prod.splits outcome.splits)

lemma andThen_trace_pure:
  "(\<And>a s. trace (g a s) = trace s) \<Longrightarrow>
   trace (snd (andThen m (\<lambda>a s. (r a, g a s)) s)) = trace (snd (m s))"
  by (simp add: andThen_def split: prod.splits outcome.splits)

lemma firstResult_data:
  "firstResult (DataMessage k d) = (case d of [] \<Rightarrow> emptyResult | r # _ \<Rightarrow> r)"
  by (simp add: firstResult_def emptyResult_def split: list.splits)


lemma forEachAssign_slots:
  "i \<le> length data \<Longrightarrow>
   forEachAssign d i data = take i data @ map Some d @ drop (i + length d) data"
proof (induction d arbitrary: i data)
  case Nil
  then show ?case by simp
next
  case (Cons r rest)
  show ?case
  proof (cases "i < length data")
    case True
    then have l: "Suc i \<le> length (arraySet data i r)" by (simp add: arraySet_def)
    from True have "take (Suc i) (data[i := Some r]) = take i data @ [Some r]"
      by (simp add: take_Suc_conv_app_nth)
    with True show ?thesis using Cons.IH [OF l] by (simp add: arraySet_def)
  next
    case False
    with Cons.prems have e: "i = length data" by simp
    then have l: "Suc i \<le> length (arraySet data i r)" by (simp add: arraySet_def)
    from e show ?thesis using Cons.IH [OF l] by (simp add: arraySet_def)
  qed
qed

lemma batchData_data:
  "batchData n (DataMessage k d) = map Some d @ replicate (n - length d) (Some emptyResult)"
  by (simp add: batchData_def forEachAssign_slots)

lemma batchData_other: "\<not> isData message \<Longrightarrow> batchData n message = replicate n (Some emptyResult)"
  by (cases message) (simp_all add: batchData_def isData_def)

lemma createCallbackFunction_registry:
  "userCallbacks (snd (createCallbackFunction eng funcName func s)) =
     (if fst (createCallbackFunction eng funcName func s) = Resolved ()
      then (userCallbacks s)(funcName \<mapsto> func) else userCallbacks s) \<and>
   (fst (createCallbackFunction eng funcName func s) = Resolved () \<longleftrightarrow>
      (\<exists>reply. fst (createQuery eng (FunctionMessage funcName CallbackFunction) s) = Resolved reply))"
proof -
  obtain r s1 where q: "createQuery eng (FunctionMessage funcName CallbackFunction) s = (r, s1)"
    by (cases "createQuery eng (FunctionMessage funcName CallbackFunction) s")
  have "rigid s (snd (createQuery eng (FunctionMessage funcName CallbackFunction) s))"
    by (rule createQuery_rigid)
  with q have u: "userCallbacks s1 = userCallbacks s" by (simp add: rigid_def)
  show ?thesis using q u
    by (cases r) (simp_all add: createCallbackFunction_def andThen_def)
qed

lemma createScalarFunction_registry:
  "proxy (snd (createScalarFunction eng funcName func s)) =
     (if fst (createScalarFunction eng funcName func s) = Resolved ()
      then map_option (\<lambda>p. p(proxySlot funcName \<mapsto> func)) (proxy s) else proxy s) \<and>
   (fst (createScalarFunction eng funcName func s) = Resolved () \<longleftrightarrow>
      (\<exists>reply. fst (createQuery eng (FunctionMessage funcName ScalarFunction) s) = Resolved reply))"
proof -
  obtain r s1 where q: "createQuery eng (FunctionMessage funcName ScalarFunction) s = (r, s1)"
    by (cases "createQuery eng (FunctionMessage funcName ScalarFunction) s")
  have "rigid s (snd (createQuery eng (FunctionMessage funcName ScalarFunction) s))"
    by (rule createQuery_rigid)
  with q have u: "proxy s1 = proxy s" by (simp add: rigid_def)
  show ?thesis using q u
    by (cases r; cases "proxy s") (simp_all add: createScalarFunction_def andThen_def)
qed

lemma transaction_unfold:
  assumes "admits s Exclusive"
    and "beginTransaction eng ((log (LockAcquired Exclusive) s)\<lparr>bypassMutationLock := True\<rparr>) =
             (Resolved tx, s2)"
    and "runAndCommit eng body tx s2 = (Rejected err, s3)"
  shows "transaction eng body s =
           (case rollback eng tx s3 of
              (Resolved _, s4) \<Rightarrow> (Rejected err, release s4)
            | (Rejected err', s4) \<Rightarrow> (Rejected err', release s4)
            | (Pending, s4) \<Rightarrow> (Pending, s4))"
  using assms
  by (simp add: transaction_def mutationLock_def tryFinally_def tryCatch_def
        rollbackAndRethrow_def andThen_def release_def
        split: prod.splits outcome.splits)

lemma runAndCommit_rejected:
  "runAndCommit eng body tx s2 = (Rejected err, s3) \<longleftrightarrow>
     body tx s2 = (Rejected err, s3) \<or>
     (\<exists>result s'. body tx s2 = (Resolved result, s') \<and> commit eng tx s' = (Rejected err, s3))"
  by (auto simp: runAndCommit_def andThen_def split: prod.splits outcome.splits)

lemma rollback_trace:
  "\<exists>es. trace (snd (rollback eng tx s)) = trace s @ es \<and>
        (connected s \<and> (bypassMutationLock s \<or> admits s Shared) \<longrightarrow>
           Posted (keyOf (keyCounter s)) (TransactionMessage tx Rollback) \<in> set es)"
proof -
  let ?msg = "TransactionMessage tx Rollback"
  have t: "trace (snd (rollback eng tx s)) = trace (snd (createQuery eng ?msg s))"
    unfolding rollback_def by (rule andThen_trace_pure) simp
  have r: "reaches s ?msg \<longleftrightarrow> connected s \<and> (bypassMutationLock s \<or> admits s Shared)"
    by (simp add: reaches_def admitted_def skipsLock_def postable_def isImport_def isDelete_def)
  from createQuery_shape [of eng ?msg s]
  obtain es where es: "trace (snd (createQuery eng ?msg s)) =
       trace s @ (if skipsLock s ?msg then []
                  else if admits s Shared then [LockAcquired Shared]
                  else [LockRequested Shared])
         @ (if reaches s ?msg then Posted (keyOf (keyCounter s)) ?msg # es else [])
         @ (if \<not> skipsLock s ?msg \<and> admits s Shared \<and> fst (createQuery eng ?msg s) \<noteq> Pending
            then [LockReleased Shared] else [])"
    by blast
  show ?thesis
    using r
    by (intro exI [of _ "(if skipsLock s ?msg then []
                  else if admits s Shared then [LockAcquired Shared]
                  else [LockRequested Shared])
         @ (if reaches s ?msg then Posted (keyOf (keyCounter s)) ?msg # es else [])
         @ (if \<not> skipsLock s ?msg \<and> admits s Shared \<and> fst (createQuery eng ?msg s) \<noteq> Pending
            then [LockReleased Shared] else [])"])
       (simp add: t es)
qed

lemma overwrite_guarded:
  "overwriteDatabaseFile eng databaseFile beforeUnlock =
     guarded eng (ImportMessage (toDatabase databaseFile)) beforeUnlock"
  by (simp add: overwriteDatabaseFile_def guarded_def)

lemma delete_guarded: "deleteDatabaseFile eng beforeUnlock = guarded eng DeleteMessage beforeUnlock"
  by (simp add: deleteDatabaseFile_def guarded_def)

lemma guarded_exit:
  "fst (guarded eng message beforeUnlock s) \<noteq> Pending \<Longrightarrow>
   \<not> bypassMutationLock (snd (guarded eng message beforeUnlock s)) \<and>
   (\<exists>t. trace (snd (guarded eng message beforeUnlock s)) = t @ [LockReleased Exclusive])"
  by (auto simp: guarded_def mutationLock_def tryFinally_def log_def
           split: prod.splits outcome.splits if_splits)

lemma import_state_held:
  assumes "isImport message \<or> isDelete message"
  shows "heldExclusive s (snd (createQuery eng message (log (LockAcquired Exclusive) s))\<lparr>bypassMutationLock := True\<rparr>)"
proof -
  let ?s0 = "log (LockAcquired Exclusive) s"
  have sk: "skipsLock ?s0 message"
    using assms by (simp add: skipsLock_def)
  from createQueryBody_shape [of eng message ?s0]
  obtain es where es: "list_all isInbound es"
    "trace (snd (createQueryBody eng message ?s0)) =
       trace ?s0 @ (if connected ?s0 \<and> postable message
                    then Posted (keyOf (keyCounter ?s0)) message # es else [])"
    by blast
  have "LockReleased Exclusive \<notin> set es"
    using es(1) by (auto simp: list_all_iff isInbound_def)
  then show ?thesis
    using es(2) sk by (simp add: heldExclusive_def createQuery_eq log_def)
qed

lemma andThen_cong_at:
  "(\<And>a. f a (snd (m s)) = g a (snd (m s))) \<Longrightarrow> andThen m f s = andThen m g s"
  by (cases "m s") (auto simp: andThen_def split: outcome.splits)

lemma guarded_hook_cong:
  assumes "isImport message \<or> isDelete message"
    and "\<forall>s1. heldExclusive s s1 \<and> bypassMutationLock s1 \<longrightarrow> hook s1 = hook' s1"
  shows "guarded eng message (Some hook) s = guarded eng message (Some hook') s"
proof -
  let ?s0 = "log (LockAcquired Exclusive) s"
  let ?s1 = "snd (createQuery eng message ?s0)\<lparr>bypassMutationLock := True\<rparr>"
  have "heldExclusive s ?s1" by (rule import_state_held [OF assms(1)])
  with assms(2) have h: "hook ?s1 = hook' ?s1" by simp
  have "andThen (createQuery eng message)
          (\<lambda>_. andThen (runBeforeUnlock (Some hook)) (\<lambda>_. postReinit)) ?s0 =
        andThen (createQuery eng message)
          (\<lambda>_. andThen (runBeforeUnlock (Some hook')) (\<lambda>_. postReinit)) ?s0"
    by (rule andThen_cong_at) (simp add: andThen_def runBeforeUnlock_def h)
  then show ?thesis by (simp add: guarded_def mutationLock_def tryFinally_def)
qed



lemma connected_simps:
  "connected (s\<lparr>trace := t\<rparr>) = connected s"
  "connected (s\<lparr>bypassMutationLock := b\<rparr>) = connected s"
  "connected (s\<lparr>keyCounter := n\<rparr>) = connected s"
  "refusal (s\<lparr>trace := t\<rparr>) = refusal s"
  "refusal (s\<lparr>bypassMutationLock := b\<rparr>) = refusal s"
  "refusal (s\<lparr>keyCounter := n\<rparr>) = refusal s"
  "admits (s\<lparr>bypassMutationLock := b\<rparr>) mode = admits s mode"
  "admits (s\<lparr>keyCounter := n\<rparr>) mode = admits s mode"
  by (simp_all add: connected_def refusal_def admits_def)

lemma query_refused:
  assumes "\<not> connected s"
  shows "fst (createQuery eng message s) =
           (case (if skipsLock s message then None else Some Shared) of
              None \<Rightarrow> Rejected (refusal s)
            | Some mode \<Rightarrow> if admits s mode then Rejected (refusal s) else Pending) \<and>
         snd (createQuery eng message s) =
           s\<lparr>trace := trace s @
              (case (if skipsLock s message then None else Some Shared) of
                 None \<Rightarrow> []
               | Some mode \<Rightarrow> if admits s mode then passed mode else [LockRequested mode])\<rparr>"
  using assms by (simp add: createQuery_refused admitted_def)

lemma plain_skipsLock:
  "\<not> isImport message \<Longrightarrow> \<not> isDelete message \<Longrightarrow> skipsLock s message = bypassMutationLock s"
  by (simp add: skipsLock_def)

lemma perform_refused:
  assumes "\<not> connected s"
  shows "fst (perform eng c s) =
           (case lockOf c s of
              None \<Rightarrow> Rejected (refusal s)
            | Some mode \<Rightarrow> if admits s mode then Rejected (refusal s) else Pending) \<and>
         trace (snd (perform eng c s)) =
           trace s @ (case lockOf c s of
                        None \<Rightarrow> []
                      | Some mode \<Rightarrow>
                          if admits s mode then passed mode else [LockRequested mode]) \<and>
         queriesInProgress (snd (perform eng c s)) = queriesInProgress s \<and>
         worker (snd (perform eng c s)) = worker s \<and>
         isWorkerDestroyed (snd (perform eng c s)) = isWorkerDestroyed s"
proof (cases c)
  case (CallQuery message)
  with query_refused [OF assms, of eng message] show ?thesis
    by (auto simp: void_def andThen_def split: prod.splits outcome.splits if_splits)
next
  case (CallExec a b c d)
  with query_refused [OF assms, of eng "QueryMessage d a b c"] show ?thesis
    by (auto simp: void_def exec_def andThen_def plain_skipsLock isImport_def isDelete_def
             split: prod.splits outcome.splits if_splits)
next
  case (CallExecBatch st)
  with query_refused [OF assms, of eng "BatchMessage st"] show ?thesis
    by (auto simp: void_def execBatch_def andThen_def plain_skipsLock isImport_def isDelete_def
             split: prod.splits outcome.splits if_splits)
next
  case CallBeginTransaction
  have n: "\<not> connected (s\<lparr>keyCounter := Suc (keyCounter s)\<rparr>)"
    using assms by (simp add: connected_simps)
  from CallBeginTransaction
    query_refused [OF n, of eng "TransactionMessage (keyOf (keyCounter s)) Begin"]
  show ?thesis
    by (auto simp: void_def beginTransaction_def getQueryKey_def andThen_def plain_skipsLock
             isImport_def isDelete_def connected_simps
             split: prod.splits outcome.splits if_splits)
next
  case (CallTransaction body)
  let ?s1 = "(log (LockAcquired Exclusive) s)\<lparr>bypassMutationLock := True,
               keyCounter := Suc (keyCounter s)\<rparr>"
  have n: "\<not> connected ?s1"
    using assms by (simp add: connected_def log_def)
  have k: "skipsLock ?s1 (TransactionMessage (keyOf (keyCounter s)) Begin)"
    by (simp add: skipsLock_def)
  from createQuery_refused [OF n, of eng "TransactionMessage (keyOf (keyCounter s)) Begin"] k
  have q: "createQuery eng (TransactionMessage (keyOf (keyCounter s)) Begin) ?s1 =
             (Rejected (refusal s), ?s1)"
    by (simp add: admitted_def refusal_def log_def)
  from CallTransaction q show ?thesis
    by (simp add: transaction_def mutationLock_def tryFinally_def beginTransaction_def
          getQueryKey_def andThen_def log_def passed_def)
next
  case (CallCreateCallbackFunction n f)
  with query_refused [OF assms, of eng "FunctionMessage n CallbackFunction"] show ?thesis
    by (auto simp: createCallbackFunction_def andThen_def plain_skipsLock isImport_def
             isDelete_def split: prod.splits outcome.splits if_splits)
next
  case (CallCreateScalarFunction n f)
  with query_refused [OF assms, of eng "FunctionMessage n ScalarFunction"] show ?thesis
    by (auto simp: createScalarFunction_def andThen_def plain_skipsLock isImport_def
             isDelete_def split: prod.splits outcome.splits if_splits)
next
  case CallGetDatabaseInfo
  with query_refused [OF assms, of eng GetInfoMessage] show ?thesis
    by (auto simp: void_def getDatabaseInfo_def andThen_def plain_skipsLock isImport_def
             isDelete_def split: prod.splits outcome.splits if_splits)
next
  case (CallOverwriteDatabaseFile f h)
  let ?s0 = "log (LockAcquired Exclusive) s"
  have n: "\<not> connected ?s0"
    using assms by (simp add: log_simps)
  from createQuery_refused [OF n, of eng "ImportMessage (toDatabase f)"]
  have q: "createQuery eng (ImportMessage (toDatabase f)) ?s0 = (Rejected (refusal s), ?s0)"
    by (simp add: admitted_def skipsLock_def isImport_def log_simps)
  from CallOverwriteDatabaseFile q show ?thesis
    by (simp add: overwriteDatabaseFile_def mutationLock_def tryFinally_def andThen_def log_def
          passed_def)
next
  case (CallDeleteDatabaseFile h)
  let ?s0 = "log (LockAcquired Exclusive) s"
  have n: "\<not> connected ?s0"
    using assms by (simp add: log_simps)
  from createQuery_refused [OF n, of eng DeleteMessage]
  have q: "createQuery eng DeleteMessage ?s0 = (Rejected (refusal s), ?s0)"
    by (simp add: admitted_def skipsLock_def isDelete_def log_simps)
  from CallDeleteDatabaseFile q show ?thesis
    by (simp add: deleteDatabaseFile_def mutationLock_def tryFinally_def andThen_def log_def
          passed_def)
next
  case CallDestroy
  with query_refused [OF assms, of eng DestroyMessage] show ?thesis
    by (auto simp: destroy_def andThen_def plain_skipsLock isImport_def isDelete_def
             split: prod.splits outcome.splits if_splits)
qed










text \<open>No call is ever registered under the empty key.\<close>

lemma dispatch_no_new_key:
  "queriesInProgress s q = None \<Longrightarrow> queriesInProgress (dispatch message s) q = None"
  by (cases message)
     (auto simp: dispatch_def terminal_def unmatched_def settle_def log_def Let_def
           split: option.splits prod.splits OutputMessage.splits if_splits)

lemma deliver_no_new_key:
  "queriesInProgress s q = None \<Longrightarrow> queriesInProgress (deliver ms s) q = None"
  by (induction ms arbitrary: s) (simp_all add: dispatch_no_new_key)

lemma createQueryBody_no_empty_key:
  "queriesInProgress s [] = None \<Longrightarrow>
   queriesInProgress (snd (createQueryBody eng message s)) [] = None"
  by (auto simp: createQueryBody_eq awaitReply_def Let_def log_def keyOf_def
           intro!: deliver_no_new_key)

lemma no_empty_key_invariant:
  "queriesInProgress (newSQLocal path hook hasWorker n) [] = None \<and>
   (queriesInProgress s [] = None \<longrightarrow>
      queriesInProgress (snd (createQuery eng message s)) [] = None)"
proof -
  have "queriesInProgress (snd (createQuery eng message s)) [] = None"
    if "queriesInProgress s [] = None"
  proof -
    from that have "queriesInProgress (log (LockAcquired Shared) s) [] = None"
      by (simp add: log_def)
    from createQueryBody_no_empty_key [OF this, of eng message]
      createQueryBody_no_empty_key [OF that, of eng message] that
    show ?thesis
      by (simp add: createQuery_eq tryFinally_snd log_def)
  qed
  then show ?thesis
    by (simp add: newSQLocal_def)
qed



lemmas sample_defs = eval_defs eval_nat_numeral rollbackFailingEngine_def throwingBody_def
  vacuumHook_def throwingHook_def oneRow_def void_def exec_def execBatch_def firstResult_def
  emptyResult_def batchData_def arraySet_def beginTransaction_def commit_def rollback_def
  runAndCommit_def rollbackAndRethrow_def transaction_def createCallbackFunction_def
  createScalarFunction_def proxySlot_def postReinit_def runBeforeUnlock_def toDatabase_def
  overwriteDatabaseFile_def deleteDatabaseFile_def destroy_def getDatabaseInfo_def
  destroyedClient_def abandonedClient_def serverClient_def

section \<open>The claims\<close>

subsection \<open>C1: a failing transaction routine\<close>

text \<open>
  C1, as the code has it. Let the structured transaction wrapper have been granted the
  exclusive lock and have begun a transaction \<open>tx\<close>, and let the caller's routine throw
  \<open>err\<close>, or return and the commit throw \<open>err\<close>, leaving the client in \<open>s3\<close>. Then
  the wrapper awaits a rollback from \<open>s3\<close> before anything propagates. If the rollback
  round trip resolves, the caller receives \<open>err\<close>. If the rollback round trip itself
  fails, the caller receives the rollback's error, not \<open>err\<close>; if it never settles,
  neither does the wrapper. Whenever the client is still connected in \<open>s3\<close> and the
  rollback is let past the lock (the bypass flag is still set, as the wrapper left it, or
  the shared lock can be had), the rollback request for \<open>tx\<close> is posted to the worker.
\<close>

theorem transaction_failure_rolls_back:
  assumes "admits s Exclusive"
    and "beginTransaction eng ((log (LockAcquired Exclusive) s)\<lparr>bypassMutationLock := True\<rparr>) =
             (Resolved tx, s2)"
    and "body tx s2 = (Rejected err, s3) \<or>
         (\<exists>result s'. body tx s2 = (Resolved result, s') \<and>
                       commit eng tx s' = (Rejected err, s3))"
  shows "fst (transaction eng body s) =
           (case fst (rollback eng tx s3) of
              Resolved _ \<Rightarrow> Rejected err
            | Rejected err' \<Rightarrow> Rejected err'
            | Pending \<Rightarrow> Pending) \<and>
         (\<exists>es. trace (snd (transaction eng body s)) = trace s3 @ es \<and>
               (worker s3 \<noteq> None \<and> \<not> isWorkerDestroyed s3 \<and>
                (bypassMutationLock s3 \<or> admits s3 Shared) \<longrightarrow>
                  Posted (keyOf (keyCounter s3)) (TransactionMessage tx Rollback) \<in> set es))"
proof -
  from assms(3) have r: "runAndCommit eng body tx s2 = (Rejected err, s3)"
    by (simp add: runAndCommit_rejected)
  note u = transaction_unfold [OF assms(1) assms(2) r]
  obtain rr s4 where rb: "rollback eng tx s3 = (rr, s4)"
    by (cases "rollback eng tx s3")
  obtain es where es: "trace (snd (rollback eng tx s3)) = trace s3 @ es"
    "connected s3 \<and> (bypassMutationLock s3 \<or> admits s3 Shared) \<longrightarrow>
       Posted (keyOf (keyCounter s3)) (TransactionMessage tx Rollback) \<in> set es"
    using rollback_trace by blast
  have a: "fst (transaction eng body s) =
           (case fst (rollback eng tx s3) of
              Resolved _ \<Rightarrow> Rejected err
            | Rejected err' \<Rightarrow> Rejected err'
            | Pending \<Rightarrow> Pending)"
    using u rb by (cases rr) simp_all
  have b: "trace (snd (transaction eng body s)) =
             trace s3 @ es @ (if rr = Pending then [] else [LockReleased Exclusive])"
    using u rb es(1) by (cases rr) (simp_all add: release_def log_def)
  show ?thesis using a b es(2)
    by (intro conjI exI [of _ "es @ (if rr = Pending then [] else [LockReleased Exclusive])"])
       (simp_all add: connected_def)
qed

text \<open>
  The theorem at work: the routine throws, the worker accepts the rollback, and the
  caller gets the routine's own error after the rollback request went out.
\<close>

theorem transaction_failure_rolls_back_witness:
  "fst (transaction okEngine throwingBody client0) = Rejected (Thrown (JsString ''body failed'')) \<and>
   Posted (keyOf 3) (TransactionMessage (keyOf 1) Rollback)
     \<in> set (trace (snd (transaction okEngine throwingBody client0)))"
proof -
  let ?s1 = "(log (LockAcquired Exclusive) client0)\<lparr>bypassMutationLock := True\<rparr>"
  let ?s2 = "snd (beginTransaction okEngine ?s1)"
  have g: "admits client0 Exclusive"
    by (simp add: sample_defs)
  have b: "beginTransaction okEngine ?s1 = (Resolved (keyOf 1), ?s2)"
    by (simp add: sample_defs prod_eq_iff)
  have f: "throwingBody (keyOf 1) ?s2 = (Rejected (Thrown (JsString ''body failed'')), ?s2) \<or>
           (\<exists>result s'. throwingBody (keyOf 1) ?s2 = (Resolved result, s') \<and>
              commit okEngine (keyOf 1) s' = (Rejected (Thrown (JsString ''body failed'')), ?s2))"
    by (simp add: throwingBody_def)
  have r: "fst (rollback okEngine (keyOf 1) ?s2) = Resolved ()"
    by (simp add: sample_defs)
  have k: "keyCounter ?s2 = 3" "worker ?s2 \<noteq> None" "\<not> isWorkerDestroyed ?s2"
    "bypassMutationLock ?s2"
    by (simp_all add: sample_defs)
  from transaction_failure_rolls_back [where eng = okEngine and s = client0 and tx = "keyOf 1"
      and ?s2.0 = ?s2 and body = throwingBody and err = "Thrown (JsString ''body failed'')"
      and ?s3.0 = ?s2, OF g b f] r k
  show ?thesis
    by auto
qed

text \<open>
  C1 as stated fails: the routine throws \<open>body failed\<close>, the worker rejects the rollback,
  and what the caller receives is the rollback's error.
\<close>

theorem rollback_error_replaces_original_counterexample:
  "fst (transaction rollbackFailingEngine throwingBody client0) =
     Rejected (Thrown (JsString ''cannot rollback''))"
  by (simp add: sample_defs)

subsection \<open>C2: calls on a destroyed or unattached client\<close>

text \<open>
  C2, as the code has it. The two checks sit inside the operation guarded by the lock, so
  a method called on a client that has no worker or has been destroyed first asks for its
  lock: the exclusive lock for the structured transaction and the two file operations,
  the shared lock for the other methods unless acquisition is skipped. If it asks for no
  lock it is rejected at once and nothing else happens. If it asks for a lock, either it
  acquires the lock, is rejected and releases the lock, or its request is recorded and it
  stays suspended, never rejected. It is rejected when the lock can be granted (no
  conflicting lock is held and no earlier caller waits), and it stays suspended when a
  conflicting lock is held. The error, once there is one, is the not-connected error
  when there is no worker and the destroyed error otherwise. Nothing is posted to the
  worker and no pending call is registered.
\<close>

theorem disconnected_calls_pass_the_lock:
  assumes "worker s = None \<or> isWorkerDestroyed s"
  shows "(lockOf c s = None \<longrightarrow>
            fst (perform eng c s) =
              Rejected (if worker s = None then NotConnected else ClientDestroyed) \<and>
            trace (snd (perform eng c s)) = trace s) \<and>
         (\<forall>mode. lockOf c s = Some mode \<longrightarrow>
            (fst (perform eng c s) =
               Rejected (if worker s = None then NotConnected else ClientDestroyed) \<and>
             trace (snd (perform eng c s)) = trace s @ [LockAcquired mode, LockReleased mode] \<or>
             fst (perform eng c s) = Pending \<and>
             trace (snd (perform eng c s)) = trace s @ [LockRequested mode]) \<and>
            (admits s mode \<longrightarrow>
               fst (perform eng c s) =
                 Rejected (if worker s = None then NotConnected else ClientDestroyed)) \<and>
            (\<not> compatible (held (trace s)) mode \<longrightarrow> fst (perform eng c s) = Pending)) \<and>
         queriesInProgress (snd (perform eng c s)) = queriesInProgress s"
proof -
  from assms have n: "\<not> connected s"
    by (auto simp: connected_def)
  from perform_refused [OF n, of eng c] show ?thesis
    by (auto simp: refusal_def admits_def passed_def split: option.splits)
qed

text \<open>
  On a destroyed client with no lock held, a structured transaction takes the exclusive
  lock, fails and releases it, and a delete request fails without any lock. On a client
  without a worker a call fails with the other error. On the destroyed client whose
  abandoned call still holds the shared lock, replacing the file waits for the exclusive
  lock and never fails.
\<close>

theorem disconnected_calls_pass_the_lock_witness:
  "isWorkerDestroyed destroyedClient \<and>
   fst (perform okEngine (CallTransaction throwingBody) destroyedClient) =
     Rejected ClientDestroyed \<and>
   trace (snd (perform okEngine (CallTransaction throwingBody) destroyedClient)) =
     trace destroyedClient @ [LockAcquired Exclusive, LockReleased Exclusive] \<and>
   fst (perform okEngine (CallQuery DeleteMessage) destroyedClient) = Rejected ClientDestroyed \<and>
   trace (snd (perform okEngine (CallQuery DeleteMessage) destroyedClient)) =
     trace destroyedClient \<and>
   worker serverClient = None \<and>
   fst (perform okEngine CallGetDatabaseInfo serverClient) = Rejected NotConnected \<and>
   isWorkerDestroyed abandonedClient \<and>
   fst (perform okEngine (CallOverwriteDatabaseFile (ArrayBuffer [83, 81, 76]) None)
          abandonedClient) = Pending \<and>
   trace (snd (perform okEngine (CallOverwriteDatabaseFile (ArrayBuffer [83, 81, 76]) None)
                 abandonedClient)) =
     trace abandonedClient @ [LockRequested Exclusive]"
proof -
  have d: "isWorkerDestroyed destroyedClient" "worker destroyedClient \<noteq> None"
    "admits destroyedClient Exclusive"
    by (simp_all add: sample_defs)
  have a: "isWorkerDestroyed abandonedClient" "worker abandonedClient \<noteq> None"
    "\<not> compatible (held (trace abandonedClient)) Exclusive"
    by (simp_all add: sample_defs)
  have w: "worker serverClient = None" "\<not> bypassMutationLock serverClient"
    "admits serverClient Shared"
    by (simp_all add: sample_defs)
  have l: "lockOf (CallTransaction throwingBody) destroyedClient = Some Exclusive"
    "lockOf (CallQuery DeleteMessage) destroyedClient = None"
    "lockOf CallGetDatabaseInfo serverClient = Some Shared"
    "lockOf (CallOverwriteDatabaseFile (ArrayBuffer [83, 81, 76]) None) abandonedClient =
       Some Exclusive"
    using w(2) by (simp_all add: skipsLock_def isDelete_def)
  note t1 = disconnected_calls_pass_the_lock [where s = destroyedClient and eng = okEngine
      and c = "CallTransaction throwingBody"]
  note t2 = disconnected_calls_pass_the_lock [where s = destroyedClient and eng = okEngine
      and c = "CallQuery DeleteMessage"]
  note t3 = disconnected_calls_pass_the_lock [where s = serverClient and eng = okEngine
      and c = CallGetDatabaseInfo]
  note t4 = disconnected_calls_pass_the_lock [where s = abandonedClient and eng = okEngine
      and c = "CallOverwriteDatabaseFile (ArrayBuffer [83, 81, 76]) None"]
  from t1 d l(1) have p1:
    "fst (perform okEngine (CallTransaction throwingBody) destroyedClient) =
       Rejected ClientDestroyed"
    by simp
  with t1 d l(1) have p1':
    "trace (snd (perform okEngine (CallTransaction throwingBody) destroyedClient)) =
       trace destroyedClient @ [LockAcquired Exclusive, LockReleased Exclusive]"
    by auto
  from t2 d l(2) have p2:
    "fst (perform okEngine (CallQuery DeleteMessage) destroyedClient) = Rejected ClientDestroyed"
    "trace (snd (perform okEngine (CallQuery DeleteMessage) destroyedClient)) =
       trace destroyedClient"
    by simp_all
  from t3 w l(3) have p3:
    "fst (perform okEngine CallGetDatabaseInfo serverClient) = Rejected NotConnected"
    by simp
  from t4 a l(4) have p4:
    "fst (perform okEngine (CallOverwriteDatabaseFile (ArrayBuffer [83, 81, 76]) None)
            abandonedClient) = Pending"
    by simp
  with t4 a l(4) have p4':
    "trace (snd (perform okEngine (CallOverwriteDatabaseFile (ArrayBuffer [83, 81, 76]) None)
                   abandonedClient)) =
       trace abandonedClient @ [LockRequested Exclusive]"
    by auto
  from d(1) a(1) w(1) p1 p1' p2 p3 p4 p4' show ?thesis
    by simp
qed

text \<open>
  C2 as stated fails: on a destroyed client an ordinary request takes the shared lock
  before it is rejected.
\<close>

theorem destroyed_client_takes_lock_counterexample:
  "isWorkerDestroyed destroyedClient \<and>
   fst (createQuery okEngine GetInfoMessage destroyedClient) = Rejected ClientDestroyed \<and>
   trace (snd (createQuery okEngine GetInfoMessage destroyedClient)) =
     trace destroyedClient @ [LockAcquired Shared, LockReleased Shared]"
  by (simp add: sample_defs)

subsection \<open>C3: terminal messages from the worker\<close>

text \<open>
  C3. Let no pending call be registered under the empty key: the handler tests the key of
  a message for truth before it looks it up, and no call is ever registered under the
  empty key (\<open>no_empty_key_invariant\<close>).
  For a success, data, error or info message: if its key is in the table of pending calls
  with promise \<open>p\<close>, the handler throws nothing, completes \<open>p\<close> once (rejects it with the
  payload for an error message, resolves it with the message otherwise) and removes the
  entry; if the message has no key or its key is not in the table, nothing changes, and
  an error message's payload is thrown out of the handler while the other kinds throw
  nothing.
\<close>

theorem processMessageEvent_terminal:
  assumes "queriesInProgress s [] = None" and "isTerminal message"
  shows "(\<forall>q p. queryKeyOf message = Some q \<and> queriesInProgress s q = Some p \<longrightarrow>
            processMessageEvent message s =
              (None, s\<lparr>trace := trace s @ [completion p message],
                        queriesInProgress := (queriesInProgress s)(q := None)\<rparr>)) \<and>
         ((queryKeyOf message = None \<or>
           (\<exists>q. queryKeyOf message = Some q \<and> queriesInProgress s q = None)) \<longrightarrow>
            processMessageEvent message s = (thrownBy message, s))"
  using assms
  by (cases message)
     (auto simp: queryKeyOf_def isTerminal_def completion_def thrownBy_def terminal_def
           unmatched_def keyInProgress_def settle_def log_def Let_def
           split: option.splits)

text \<open>
  On the client with one waiting call: the matching info message resolves it and removes
  the entry; an error message without a key is thrown.
\<close>

theorem processMessageEvent_terminal_witness:
  "processMessageEvent (InfoMessage (Some (keyOf 1)) []) waitingClient =
     (None, waitingClient\<lparr>trace := trace waitingClient @
                [PromiseResolved 0 (InfoMessage (Some (keyOf 1)) [])],
              queriesInProgress := (queriesInProgress waitingClient)(keyOf 1 := None)\<rparr>) \<and>
   processMessageEvent (ErrorMessage None (JsString ''disk full'')) waitingClient =
     (Some (JsString ''disk full''), waitingClient)"
proof -
  have p: "queriesInProgress waitingClient [] = None"
    "queriesInProgress waitingClient (keyOf 1) = Some 0"
    by (simp_all add: eval_defs)
  have t: "isTerminal (InfoMessage (Some (keyOf 1)) [])"
    "isTerminal (ErrorMessage None (JsString ''disk full''))"
    by (simp_all add: isTerminal_def)
  from processMessageEvent_terminal [OF p(1) t(1)] processMessageEvent_terminal [OF p(1) t(2)] p(2)
  show ?thesis
    by (simp add: queryKeyOf_def completion_def thrownBy_def)
qed

subsection \<open>C4: destroying a client with calls pending\<close>




subsection \<open>C5: the result sets of a batch\<close>

text \<open>
  C5, as the code has it. When the round trip of a batch of \<open>N\<close> statements resolves,
  \<open>execBatch\<close> resolves with an array built from the reply. For a data reply carrying
  \<open>M\<close> result sets the array has \<open>max N M\<close> slots: the reply's sets in their order,
  followed by \<open>N - M\<close> empty results (no rows, no columns) when there are fewer than
  \<open>N\<close>; so it has exactly \<open>N\<close> slots whenever \<open>M \<le> N\<close>, and \<open>M\<close> slots when the
  reply carries more. For a reply of another kind all \<open>N\<close> slots are empty results. No
  slot is left unassigned. In terms of the worker: on an attached client whose request
  is let past the lock, a data message answering the request gives that array.
\<close>

theorem execBatch_result_sets:
  "fst (execBatch eng statements s) =
     (case fst (createQuery eng (BatchMessage statements) s) of
        Resolved message \<Rightarrow> Resolved (batchData (length statements) message)
      | Rejected e \<Rightarrow> Rejected e
      | Pending \<Rightarrow> Pending) \<and>
   batchData (length statements) (DataMessage k d) =
     map Some d @ replicate (length statements - length d) (Some emptyResult) \<and>
   length (batchData (length statements) (DataMessage k d)) = max (length statements) (length d) \<and>
   (\<not> isData message \<longrightarrow>
      batchData (length statements) message = replicate (length statements) (Some emptyResult)) \<and>
   (attached s \<and> (bypassMutationLock s \<or> admits s Shared) \<and>
    eng (requestTrace s (BatchMessage statements)) = [DataMessage (Some (keyOf (keyCounter s))) d] \<longrightarrow>
      fst (execBatch eng statements s) =
        Resolved (map Some d @ replicate (length statements - length d) (Some emptyResult)))"
proof -
  have f: "fst (execBatch eng statements s) =
     (case fst (createQuery eng (BatchMessage statements) s) of
        Resolved message \<Rightarrow> Resolved (batchData (length statements) message)
      | Rejected e \<Rightarrow> Rejected e
      | Pending \<Rightarrow> Pending)"
    unfolding execBatch_def by (rule andThen_fst_pure)
  have e: "fst (execBatch eng statements s) =
        Resolved (map Some d @ replicate (length statements - length d) (Some emptyResult))"
    if "attached s" and "bypassMutationLock s \<or> admits s Shared"
      and "eng (requestTrace s (BatchMessage statements)) =
             [DataMessage (Some (keyOf (keyCounter s))) d]"
  proof -
    from that(2) have g: "admitted s (BatchMessage statements)"
      by (auto simp: admitted_def skipsLock_def)
    have p: "postable (BatchMessage statements)"
      by (simp add: postable_def)
    from createQuery_single [where eng = eng and s = s and message = "BatchMessage statements",
        OF that(1) g p that(3)]
    show ?thesis
      by (simp add: f queryKeyOf_def batchData_data)
  qed
  show ?thesis
    using f e batchData_other [of message "length statements"]
    by (simp add: batchData_data)
qed

text \<open>Two statements, one result set in the reply: the second slot is an empty result.\<close>

theorem execBatch_result_sets_witness:
  "attached client0 \<and>
   fst (execBatch (dataEngine [oneRow 1])
          [\<lparr>sql = ''SELECT 1 AS id'', params = []\<rparr>, \<lparr>sql = ''DELETE FROM t'', params = []\<rparr>]
          client0) =
     Resolved [Some (oneRow 1), Some emptyResult]"
proof -
  let ?st = "[\<lparr>sql = ''SELECT 1 AS id'', params = []\<rparr>, \<lparr>sql = ''DELETE FROM t'', params = []\<rparr>]"
  have a: "attached client0" "admits client0 Shared"
    by (simp_all add: attached_def sample_defs)
  have r: "dataEngine [oneRow 1] (requestTrace client0 (BatchMessage ?st)) =
             [DataMessage (Some (keyOf (keyCounter client0))) [oneRow 1]]"
    by (simp add: requestTrace_def dataEngine_def replyTo_def client0_def newSQLocal_def
          isImport_def isDelete_def)
  from execBatch_result_sets [where eng = "dataEngine [oneRow 1]" and statements = ?st
      and s = client0 and d = "[oneRow 1]" and k = None and message = EventMessage] a r
  have "fst (execBatch (dataEngine [oneRow 1]) ?st client0) =
          Resolved (map Some [oneRow 1] @ replicate (length ?st - length [oneRow 1]) (Some emptyResult))"
    by blast
  with a(1) show ?thesis
    by (simp add: eval_nat_numeral)
qed

text \<open>
  C5 as stated fails: one statement, two result sets in the reply, and the batch returns
  two result sets.
\<close>

theorem execBatch_extra_result_sets_counterexample:
  "fst (execBatch (dataEngine [oneRow 1, oneRow 2]) [\<lparr>sql = ''SELECT 1 AS id'', params = []\<rparr>]
          client0) =
     Resolved [Some (oneRow 1), Some (oneRow 2)]"
  by (simp add: sample_defs)

subsection \<open>C6: a single statement\<close>




subsection \<open>C7: the exclusive lock and the bypass flag of the file operations\<close>

text \<open>
  C7. Whenever \<open>overwriteDatabaseFile\<close> or \<open>deleteDatabaseFile\<close> returns or throws
  (normal completion, a failed import or delete round trip, a throwing \<open>beforeUnlock\<close>
  hook alike), the bypass flag is false and the last thing that happened is the release
  of the exclusive lock. The hook runs while that lock is held: the outcome of the call
  depends on the hook only through what the hook does in states where the bypass flag is
  set and the exclusive lock this call acquired has not been released.
\<close>

theorem file_operations_release_lock:
  "(fst (overwriteDatabaseFile eng databaseFile beforeUnlock s) \<noteq> Pending \<longrightarrow>
      \<not> bypassMutationLock (snd (overwriteDatabaseFile eng databaseFile beforeUnlock s)) \<and>
      (\<exists>t. trace (snd (overwriteDatabaseFile eng databaseFile beforeUnlock s)) =
            t @ [LockReleased Exclusive])) \<and>
   (fst (deleteDatabaseFile eng beforeUnlock s) \<noteq> Pending \<longrightarrow>
      \<not> bypassMutationLock (snd (deleteDatabaseFile eng beforeUnlock s)) \<and>
      (\<exists>t. trace (snd (deleteDatabaseFile eng beforeUnlock s)) = t @ [LockReleased Exclusive])) \<and>
   ((\<forall>s1. heldExclusive s s1 \<and> bypassMutationLock s1 \<longrightarrow> hook s1 = hook' s1) \<longrightarrow>
      overwriteDatabaseFile eng databaseFile (Some hook) s =
        overwriteDatabaseFile eng databaseFile (Some hook') s \<and>
      deleteDatabaseFile eng (Some hook) s = deleteDatabaseFile eng (Some hook') s)"
  using guarded_exit [of eng "ImportMessage (toDatabase databaseFile)" beforeUnlock s]
    guarded_exit [of eng DeleteMessage beforeUnlock s]
    guarded_hook_cong [of "ImportMessage (toDatabase databaseFile)" s hook hook' eng]
    guarded_hook_cong [of DeleteMessage s hook hook' eng]
  by (simp add: overwrite_guarded delete_guarded isImport_def isDelete_def)

text \<open>
  The three exits. A file is imported and the hook runs a statement: the statement goes
  out between the acquisition and the release, without a lock of its own. The worker
  rejects a delete. A hook throws after a delete. Each time the flag ends false and the
  lock released.
\<close>

theorem file_operations_release_lock_witness:
  "fst (overwriteDatabaseFile okEngine (FileOrBlob [83, 81, 76]) (Some vacuumHook) client0) =
     Resolved () \<and>
   \<not> bypassMutationLock
       (snd (overwriteDatabaseFile okEngine (FileOrBlob [83, 81, 76]) (Some vacuumHook) client0)) \<and>
   trace (snd (overwriteDatabaseFile okEngine (FileOrBlob [83, 81, 76]) (Some vacuumHook) client0)) =
     [PostedConfig ''app.sqlite3'' (keyOf 0), LockAcquired Exclusive,
      Posted (keyOf 1) (ImportMessage (ReadableStream [83, 81, 76])),
      PromiseResolved 0 (SuccessMessage (Some (keyOf 1))),
      Posted (keyOf 2) (QueryMessage None ''VACUUM'' [] ''all''),
      PromiseResolved 1 (SuccessMessage (Some (keyOf 2))),
      Broadcast ''_sqlocal_reinit_(app.sqlite3)'' (keyOf 0), LockReleased Exclusive] \<and>
   fst (deleteDatabaseFile failingEngine None client0) = Rejected (Thrown (JsString ''SQLITE_ERROR'')) \<and>
   \<not> bypassMutationLock (snd (deleteDatabaseFile failingEngine None client0)) \<and>
   trace (snd (deleteDatabaseFile failingEngine None client0)) =
     [PostedConfig ''app.sqlite3'' (keyOf 0), LockAcquired Exclusive,
      Posted (keyOf 1) DeleteMessage, PromiseRejected 0 (JsString ''SQLITE_ERROR''),
      LockReleased Exclusive] \<and>
   fst (deleteDatabaseFile okEngine (Some throwingHook) client0) =
     Rejected (Thrown (JsString ''hook failed'')) \<and>
   \<not> bypassMutationLock (snd (deleteDatabaseFile okEngine (Some throwingHook) client0)) \<and>
   trace (snd (deleteDatabaseFile okEngine (Some throwingHook) client0)) =
     [PostedConfig ''app.sqlite3'' (keyOf 0), LockAcquired Exclusive,
      Posted (keyOf 1) DeleteMessage, PromiseResolved 0 (SuccessMessage (Some (keyOf 1))),
      LockReleased Exclusive]"
  using file_operations_release_lock [where eng = okEngine and databaseFile = "FileOrBlob [83, 81, 76]"
      and beforeUnlock = "Some vacuumHook" and s = client0 and hook = vacuumHook
      and hook' = vacuumHook]
  by (simp add: sample_defs)

subsection \<open>C8: which requests take the shared lock\<close>

text \<open>
  C8. A request passed through \<open>createQuery\<close> asks for no lock at all exactly when the
  bypass flag is set or the request is an import or a delete. Every other request is
  admitted under the shared mode only: asking for the shared lock is the first thing that
  happens, and the only lock events are that the shared lock is acquired and, once the
  request has settled, released, or that the request for it is recorded. If the shared
  lock can be granted (no exclusive lock is held and no earlier caller waits), acquiring
  it is the first thing that happens and it is released in shared mode once the request
  has settled. If an exclusive lock is held, the request waits and nothing else happens.
\<close>

theorem createQuery_lock_admission:
  "\<exists>es. trace (snd (createQuery eng message s)) = trace s @ es \<and>
        (bypassMutationLock s \<or> isImport message \<or> isDelete message \<longrightarrow>
           filter isLockEvent es = []) \<and>
        (\<not> (bypassMutationLock s \<or> isImport message \<or> isDelete message) \<longrightarrow>
           (take 1 es = [LockAcquired Shared] \<and>
            filter isLockEvent es =
              (if fst (createQuery eng message s) = Pending then [LockAcquired Shared]
               else [LockAcquired Shared, LockReleased Shared]) \<or>
            es = [LockRequested Shared] \<and> fst (createQuery eng message s) = Pending)) \<and>
        (\<not> (bypassMutationLock s \<or> isImport message \<or> isDelete message) \<and> admits s Shared \<longrightarrow>
           take 1 es = [LockAcquired Shared] \<and>
           filter isLockEvent es =
             (if fst (createQuery eng message s) = Pending then [LockAcquired Shared]
              else [LockAcquired Shared, LockReleased Shared])) \<and>
        (\<not> (bypassMutationLock s \<or> isImport message \<or> isDelete message) \<and>
         \<not> compatible (held (trace s)) Shared \<longrightarrow>
           es = [LockRequested Shared] \<and> fst (createQuery eng message s) = Pending)"
proof -
  from createQuery_shape [of eng message s]
  obtain es where es: "list_all isInbound es"
    "trace (snd (createQuery eng message s)) =
       trace s @ (if skipsLock s message then []
                  else if admits s Shared then [LockAcquired Shared]
                  else [LockRequested Shared])
         @ (if reaches s message then Posted (keyOf (keyCounter s)) message # es else [])
         @ (if \<not> skipsLock s message \<and> admits s Shared \<and>
               fst (createQuery eng message s) \<noteq> Pending
            then [LockReleased Shared] else [])"
    by blast
  have b: "fst (createQuery eng message s) = Pending"
    if "\<not> skipsLock s message" and "\<not> admits s Shared"
    using that by (simp add: createQuery_eq)
  show ?thesis
    using es(2) inbound_no_lock [OF es(1)] b
    by (intro exI [of _ "(if skipsLock s message then []
                  else if admits s Shared then [LockAcquired Shared]
                  else [LockRequested Shared])
         @ (if reaches s message then Posted (keyOf (keyCounter s)) message # es else [])
         @ (if \<not> skipsLock s message \<and> admits s Shared \<and>
               fst (createQuery eng message s) \<noteq> Pending
            then [LockReleased Shared] else [])"])
       (auto simp: skipsLock_def isLockEvent_def reaches_def admitted_def admits_def)
qed

text \<open>
  An info request takes the shared lock around its round trip; a delete request takes
  none; an info request made while the exclusive lock is held and the bypass flag is
  clear waits.
\<close>

theorem createQuery_lock_admission_witness:
  "trace (snd (createQuery okEngine GetInfoMessage client0)) =
     trace client0 @ [LockAcquired Shared, Posted (keyOf 1) GetInfoMessage,
                      PromiseResolved 0 (SuccessMessage (Some (keyOf 1))), LockReleased Shared] \<and>
   trace (snd (createQuery okEngine DeleteMessage client0)) =
     trace client0 @ [Posted (keyOf 1) DeleteMessage,
                      PromiseResolved 0 (SuccessMessage (Some (keyOf 1)))] \<and>
   createQuery okEngine GetInfoMessage (log (LockAcquired Exclusive) client0) =
     (Pending, log (LockRequested Shared) (log (LockAcquired Exclusive) client0))"
  using createQuery_lock_admission [of okEngine GetInfoMessage client0]
    createQuery_lock_admission [of okEngine DeleteMessage client0]
  by (simp add: sample_defs)

subsection \<open>C9: the reinitialization notice\<close>




subsection \<open>C10: registering user functions\<close>

text \<open>
  C10. While the registration request of \<open>createCallbackFunction\<close> or
  \<open>createScalarFunction\<close> is in flight the local registry (the map of callbacks, the
  named slot of the worker proxy) is as it was. The call resolves exactly when the
  request resolves; only then is the function stored. If the request is rejected or
  never settles, the registry is left unchanged.
\<close>

theorem function_registry_updated_after_round_trip:
  "userCallbacks (snd (createQuery eng (FunctionMessage funcName CallbackFunction) s)) =
     userCallbacks s \<and>
   userCallbacks (snd (createCallbackFunction eng funcName func s)) =
     (if fst (createCallbackFunction eng funcName func s) = Resolved ()
      then (userCallbacks s)(funcName \<mapsto> func) else userCallbacks s) \<and>
   (fst (createCallbackFunction eng funcName func s) = Resolved () \<longleftrightarrow>
      (\<exists>reply. fst (createQuery eng (FunctionMessage funcName CallbackFunction) s) = Resolved reply)) \<and>
   proxy (snd (createQuery eng (FunctionMessage funcName ScalarFunction) s)) = proxy s \<and>
   proxy (snd (createScalarFunction eng funcName func s)) =
     (if fst (createScalarFunction eng funcName func s) = Resolved ()
      then map_option (\<lambda>p. p(proxySlot funcName \<mapsto> func)) (proxy s) else proxy s) \<and>
   (fst (createScalarFunction eng funcName func s) = Resolved () \<longleftrightarrow>
      (\<exists>reply. fst (createQuery eng (FunctionMessage funcName ScalarFunction) s) = Resolved reply))"
  using createCallbackFunction_registry [of eng funcName func s]
    createScalarFunction_registry [of eng funcName func s]
    createQuery_rigid [of s eng "FunctionMessage funcName CallbackFunction"]
    createQuery_rigid [of s eng "FunctionMessage funcName ScalarFunction"]
  by (simp add: rigid_def)

text \<open>
  The worker accepts a callback registration and the callback is stored; the worker
  rejects one and the map stays empty.
\<close>

theorem function_registry_updated_after_round_trip_witness:
  "fst (createCallbackFunction okEngine ''notify'' 7 client0) = Resolved () \<and>
   userCallbacks (snd (createCallbackFunction okEngine ''notify'' 7 client0)) ''notify'' = Some 7 \<and>
   fst (createCallbackFunction failingEngine ''notify'' 7 client0) =
     Rejected (Thrown (JsString ''SQLITE_ERROR'')) \<and>
   userCallbacks (snd (createCallbackFunction failingEngine ''notify'' 7 client0)) ''notify'' = None"
  using function_registry_updated_after_round_trip [of okEngine "''notify''" client0 7]
    function_registry_updated_after_round_trip [of failingEngine "''notify''" client0 7]
  by (simp add: sample_defs)

end
